theory Spec2Isabelle
  imports Main "HOL-Library.Extended_Nat" "HOL-Library.Multiset" "HOL-Library.AList"
begin

text \<open>
  The multi-column sorting plugin of a spreadsheet grid: the public \<open>sort\<close>, the full
  sort pass \<open>sortByPresetSortState\<close>, the row translation hook \<open>onModifyRow\<close>, the
  merged column settings \<open>getFirstCellSettings\<close> and the date comparator \<open>dateSort\<close>,
  with what they call. The plugin is the variant that keeps the merged settings in a
  \<open>columnMetaCache\<close>. State is passed explicitly, an exception is a value, and the
  collaborators of the plugin (the grid, its hooks, the date parser) are the fields of a
  record of functions.
\<close>

section \<open>Cell values, exceptions and comparison results\<close>

text \<open>
  A cell of the grid holds \<open>null\<close>, \<open>undefined\<close>, a string or a number. The strict
  equality \<open>===\<close> of the source is the equality of this type.
\<close>

datatype cell = Null | Undefined | Str string | Num int

text \<open>
  What a call can throw: a \<open>TypeError\<close> (reading a property of \<open>undefined\<close>), or
  whatever a collaborator of the host (a data hook, the \<open>cells\<close> function, a custom
  compare function) throws.
\<close>

datatype exn = TypeError | HostError

text \<open>
  Modelled from the spec: the three results of a comparison strategy, "first-before-second",
  "first-after-second" and "equal/no-preference"; the constants are imported from
  \<open>../utils\<close>, which is not among the sources. They are numbers: the sort only asks
  whether a result is greater than zero.
\<close>

definition DO_NOT_SWAP :: int where
  "DO_NOT_SWAP = 0"

definition FIRST_BEFORE_SECOND :: int where
  "FIRST_BEFORE_SECOND = - 1"

definition FIRST_AFTER_SECOND :: int where
  "FIRST_AFTER_SECOND = 1"

text \<open>
  Modelled from the spec: the shared emptiness predicate (\<open>isEmpty\<close> of the host's
  helpers): a value is empty when it is null, undefined or the empty string.
\<close>

definition isEmpty :: "cell \<Rightarrow> bool" where
  "isEmpty v = (v = Null \<or> v = Str [] \<or> v = Undefined)"

section \<open>Column settings and row snapshots\<close>

text \<open>
  The plugin's settings of one column. A \<open>compareFunctionFactory\<close> is user code
  \<open>(sortOrder, columnMeta) => (value, nextValue) => number\<close>; it is kept here already
  applied to its column meta.
\<close>

record pluginSettings =
  sortEmptyCells :: bool
  indicator :: bool
  headerAction :: bool
  compareFunctionFactory :: "(string option \<Rightarrow> cell \<Rightarrow> cell \<Rightarrow> exn + int) option"

text \<open>
  The cell meta of a column's first cell, as the comparators read it: the column type, the
  date format and the plugin's settings (\<open>None\<close> is \<open>undefined\<close>).
\<close>

record columnMeta =
  colType :: string
  dateFormat :: string
  multiColumnSorting :: "pluginSettings option"

text \<open>A row snapshot \<open>[rowIndex, ...values]\<close>.\<close>

type_synonym rowSnapshot = "nat \<times> cell list"

text \<open>Reading an array of cells at an index: \<open>undefined\<close> out of range.\<close>

definition valueAt :: "cell list \<Rightarrow> nat \<Rightarrow> cell" where
  "valueAt vs i = (if i < length vs then vs ! i else Undefined)"

text \<open>Reading the array of sort orders at an index: \<open>undefined\<close> out of range.\<close>

definition sortOrderAt :: "string option list \<Rightarrow> nat \<Rightarrow> string option" where
  "sortOrderAt sortOrders i = (if i < length sortOrders then sortOrders ! i else None)"

section \<open>The date comparator\<close>

text \<open>
  \<open>dateSort(sortOrders, columnMetas)\<close> applied to two row snapshots and the index of the
  sorted column. Two things the source gets from elsewhere are parameters:
  \<^item> \<open>moment value dateFormat\<close> is the time stamp of \<open>moment(value, dateFormat)\<close>, and
    \<open>None\<close> when \<open>isValid()\<close> is false; \<open>isAfter\<close> and \<open>isBefore\<close> compare time stamps;
  \<^item> \<open>nextColumnSortResult\<close> is the value of the call
    \<open>getNextColumnSortResult(sortOrders, columnMetas, row, nextRow, sortedColumnIndex)\<close>,
    which the source makes in two places.
  Destructuring \<open>columnMetas[sortedColumnIndex].multiColumnSorting\<close> throws a \<open>TypeError\<close>
  when the column meta or its plugin settings are \<open>undefined\<close>.
\<close>

definition dateSort ::
  "(cell \<Rightarrow> string \<Rightarrow> int option) \<Rightarrow> (exn + int) \<Rightarrow> string option list \<Rightarrow> columnMeta list
    \<Rightarrow> rowSnapshot \<Rightarrow> rowSnapshot \<Rightarrow> nat \<Rightarrow> exn + int" where
  "dateSort moment nextColumnSortResult sortOrders columnMetas row nextRow sortedColumnIndex =
    (let val = valueAt (snd row) sortedColumnIndex;
         nextValue = valueAt (snd nextRow) sortedColumnIndex;
         sortOrder = sortOrderAt sortOrders sortedColumnIndex
     in if \<not> sortedColumnIndex < length columnMetas then Inl TypeError
        else case multiColumnSorting (columnMetas ! sortedColumnIndex) of
          None \<Rightarrow> Inl TypeError
        | Some settings \<Rightarrow>
            if val = nextValue then nextColumnSortResult
            else if isEmpty val then
              (if isEmpty nextValue then nextColumnSortResult
               else if sortEmptyCells settings then
                 Inr (if sortOrder = Some ''asc'' then FIRST_BEFORE_SECOND else FIRST_AFTER_SECOND)
               else Inr FIRST_AFTER_SECOND)
            else if isEmpty nextValue then
              (if sortEmptyCells settings then
                 Inr (if sortOrder = Some ''asc'' then FIRST_AFTER_SECOND else FIRST_BEFORE_SECOND)
               else Inr FIRST_BEFORE_SECOND)
            else
              (case moment val (dateFormat (columnMetas ! sortedColumnIndex)) of
                 None \<Rightarrow> Inr FIRST_AFTER_SECOND
               | Some firstDate \<Rightarrow>
                  (case moment nextValue (dateFormat (columnMetas ! sortedColumnIndex)) of
                     None \<Rightarrow> Inr FIRST_BEFORE_SECOND
                   | Some nextDate \<Rightarrow>
                       if firstDate < nextDate then
                         Inr (if sortOrder = Some ''asc'' then FIRST_BEFORE_SECOND
                              else FIRST_AFTER_SECOND)
                       else if nextDate < firstDate then
                         Inr (if sortOrder = Some ''asc'' then FIRST_AFTER_SECOND
                              else FIRST_BEFORE_SECOND)
                       else Inr DO_NOT_SWAP)))"

section \<open>The composite comparator\<close>

text \<open>
  Modelled from the spec: the composite comparator (\<open>mainSortComparator\<close> and
  \<open>getNextColumnSortResult\<close> of \<open>./comparatorEngine\<close> and \<open>../utils\<close>, which are not
  among the sources). Criterion \<open>sortedColumnIndex\<close> is evaluated by the strategy of its
  column: the column's own \<open>compareFunctionFactory\<close> when it has one, the date strategy
  for a column of type \<open>date\<close>, and otherwise the built-in strategy of the column type,
  which is the parameter \<open>builtinSort\<close>. On "equal/no-preference" the next criterion
  decides, and the result is "equal" when no criterion remains.
\<close>

function mainSortComparator ::
  "(cell \<Rightarrow> string \<Rightarrow> int option) \<Rightarrow> (columnMeta \<Rightarrow> string option \<Rightarrow> cell \<Rightarrow> cell \<Rightarrow> exn + int)
    \<Rightarrow> string option list \<Rightarrow> columnMeta list \<Rightarrow> rowSnapshot \<Rightarrow> rowSnapshot \<Rightarrow> nat \<Rightarrow> exn + int"
  where
  "mainSortComparator moment builtinSort sortOrders columnMetas row nextRow sortedColumnIndex =
    (let nextColumnSortResult =
           (if Suc sortedColumnIndex < length columnMetas
            then mainSortComparator moment builtinSort sortOrders columnMetas row nextRow
                   (Suc sortedColumnIndex)
            else Inr DO_NOT_SWAP);
         deferOnEqual = (\<lambda>r. case r of Inl e \<Rightarrow> Inl e
                              | Inr c \<Rightarrow> if c = DO_NOT_SWAP then nextColumnSortResult else Inr c)
     in if \<not> sortedColumnIndex < length columnMetas then Inl TypeError
        else case multiColumnSorting (columnMetas ! sortedColumnIndex) of
          None \<Rightarrow> Inl TypeError
        | Some settings \<Rightarrow>
           (case compareFunctionFactory settings of
              Some factory \<Rightarrow>
                deferOnEqual (factory (sortOrderAt sortOrders sortedColumnIndex)
                  (valueAt (snd row) sortedColumnIndex) (valueAt (snd nextRow) sortedColumnIndex))
            | None \<Rightarrow>
                if colType (columnMetas ! sortedColumnIndex) = ''date'' then
                  dateSort moment nextColumnSortResult sortOrders columnMetas row nextRow
                    sortedColumnIndex
                else
                  deferOnEqual (builtinSort (columnMetas ! sortedColumnIndex)
                    (sortOrderAt sortOrders sortedColumnIndex)
                    (valueAt (snd row) sortedColumnIndex)
                    (valueAt (snd nextRow) sortedColumnIndex))))"
  by pat_completeness auto
termination
  by (relation "measure (\<lambda>(moment, builtinSort, sortOrders, columnMetas, row, nextRow, k).
        length columnMetas - k)") auto

declare mainSortComparator.simps [simp del]

section \<open>The stable sort\<close>

text \<open>
  Modelled from the spec: the stable sort of the row snapshots (\<open>mergeSort\<close> of the host's
  \<open>utils/sortingAlgorithms\<close>, which is not among the sources): a top-down merge sort
  that cuts the array at \<open>ceil(length / 2)\<close> and, merging, takes the head of the right
  half only when the comparator's result for (left head, right head) is greater than
  zero. An exception of the comparator ends the sort.
\<close>

fun merge :: "('a \<Rightarrow> 'a \<Rightarrow> exn + int) \<Rightarrow> 'a list \<Rightarrow> 'a list \<Rightarrow> exn + 'a list" where
  "merge compareFunction [] rs = Inr rs"
| "merge compareFunction (l # ls) [] = Inr (l # ls)"
| "merge compareFunction (l # ls) (r # rs) =
    (case compareFunction l r of
       Inl e \<Rightarrow> Inl e
     | Inr c \<Rightarrow>
        if c > 0 then
          (case merge compareFunction (l # ls) rs of Inl e \<Rightarrow> Inl e | Inr zs \<Rightarrow> Inr (r # zs))
        else
          (case merge compareFunction ls (r # rs) of Inl e \<Rightarrow> Inl e | Inr zs \<Rightarrow> Inr (l # zs)))"

function mergeSort :: "('a \<Rightarrow> 'a \<Rightarrow> exn + int) \<Rightarrow> 'a list \<Rightarrow> exn + 'a list" where
  "mergeSort compareFunction xs =
    (if length xs \<le> 1 then Inr xs
     else
       (case mergeSort compareFunction (take ((length xs + 1) div 2) xs) of
          Inl e \<Rightarrow> Inl e
        | Inr ls \<Rightarrow>
           (case mergeSort compareFunction (drop ((length xs + 1) div 2) xs) of
              Inl e \<Rightarrow> Inl e
            | Inr rs \<Rightarrow> merge compareFunction ls rs)))"
  by pat_completeness auto
termination
  by (relation "measure (\<lambda>(compareFunction, xs). length xs)") auto

declare mergeSort.simps [simp del]

section \<open>The host and the state of the plugin\<close>

text \<open>One entry \<open>{ column, sortOrder }\<close> of a sort configuration or of the sort queue.\<close>

record columnSortState =
  column :: int
  sortOrder :: string

text \<open>
  What the plugin asks of the Handsontable instance \<open>this.hot\<close> and of its other
  collaborators. Row and column counts and the \<open>minSpareRows\<close> setting are natural
  numbers, and \<open>maxRows\<close> is a natural number or \<open>Infinity\<close> (its default): a
  negative or fractional count is a misconfiguration of the host and is outside the model.
  \<^item> \<open>dataAtPhysicalRow\<close> and \<open>cellMetaAtPhysicalRow\<close> are \<open>getDataAtCell\<close> and
    \<open>getCellMeta\<close> behind the row translation: they take the row that the \<open>modifyRow\<close>
    hook returned, and may throw.
  \<^item> \<open>assignPluginSettings stored column\<close> is the object
    \<open>Object.assign(storedColumnProperties, pluginMainSettings, pluginColumnConfig)\<close> of
    \<open>setMergedPluginSettings\<close> for a visual column.
  \<^item> \<open>beforeColumnSort\<close> is the result of running the hook of that name: \<open>False\<close> when
    it is \<open>false\<close>, \<open>True\<close> for every other value.
  \<^item> \<open>persistentState\<close> tells whether the \<open>persistentStateSave\<close> hook stores what it
    is given.
  \<^item> \<open>momentOf\<close> is the date parser and \<open>builtinSortOf\<close> the built-in strategy of the
    column types other than \<open>date\<close>.
\<close>

record hot =
  countRows :: nat
  countCols :: nat
  maxRows :: enat
  minSpareRows :: nat
  toPhysicalColumn :: "int \<Rightarrow> int"
  toVisualColumn :: "int \<Rightarrow> int"
  dataAtPhysicalRow :: "int \<Rightarrow> int \<Rightarrow> exn + cell"
  cellMetaAtPhysicalRow :: "int \<Rightarrow> int \<Rightarrow> exn + columnMeta"
  assignPluginSettings :: "pluginSettings \<Rightarrow> int \<Rightarrow> pluginSettings"
  beforeColumnSort :: "columnSortState list \<Rightarrow> columnSortState list \<Rightarrow> bool \<Rightarrow> bool"
  persistentState :: bool
  momentOf :: "cell \<Rightarrow> string \<Rightarrow> int option"
  builtinSortOf :: "columnMeta \<Rightarrow> string option \<Rightarrow> cell \<Rightarrow> cell \<Rightarrow> exn + int"

text \<open>
  The mutable state: the sort queue and the column properties of the column states
  manager, the array \<open>_arrayMap\<close> of the rows mapper, the translation-suppression flag,
  the cache of merged column settings (a \<open>Map\<close> from physical column to settings), and
  the settings last handed to the persistence collaborator.
\<close>

record plugin =
  pluginName :: string
  sortedColumnsStates :: "columnSortState list"
  columnsProperties :: pluginSettings
  rowsMapper :: "nat list"
  blockPluginTranslation :: bool
  columnMetaCache :: "(int \<times> pluginSettings) list"
  savedSortSettings :: "(pluginSettings \<times> columnSortState list) option"

section \<open>The rows mapper and the row translation hook\<close>

text \<open>
  Modelled from the spec: \<open>valueAt(visualIndex) -> physicalIndex | absent\<close> of the Order
  Mapper (\<open>getValueByIndex\<close> of \<open>./rowsMapper\<close>, which is not among the sources):
  the entry of the array at the index, \<open>null\<close> (here \<open>None\<close>) when there is none.
\<close>

definition getValueByIndex :: "nat list \<Rightarrow> int \<Rightarrow> nat option" where
  "getValueByIndex arrayMap index =
    (if 0 \<le> index \<and> nat index < length arrayMap then Some (arrayMap ! nat index) else None)"

text \<open>Modelled from the spec: \<open>clear()\<close> of the Order Mapper empties the array.\<close>

definition clearMap :: "plugin \<Rightarrow> plugin" where
  "clearMap this = this\<lparr>rowsMapper := []\<rparr>"

definition onModifyRow :: "plugin \<Rightarrow> int \<Rightarrow> string option \<Rightarrow> int" where
  "onModifyRow this row source =
    (if blockPluginTranslation this = False \<and> source \<noteq> Some (pluginName this) then
       (case getValueByIndex (rowsMapper this) row of
          None \<Rightarrow> row
        | Some rowInMapper \<Rightarrow> int rowInMapper)
     else row)"

text \<open>
  The host's reads translate their visual row through the \<open>modifyRow\<close> hook (with no
  source tag) before they reach the data.
\<close>

definition getDataAtCell :: "hot \<Rightarrow> plugin \<Rightarrow> int \<Rightarrow> int \<Rightarrow> exn + cell" where
  "getDataAtCell h this row col = dataAtPhysicalRow h (onModifyRow this row None) col"

definition getCellMeta :: "hot \<Rightarrow> plugin \<Rightarrow> int \<Rightarrow> int \<Rightarrow> exn + columnMeta" where
  "getCellMeta h this row col = cellMetaAtPhysicalRow h (onModifyRow this row None) col"

section \<open>The column states manager\<close>

text \<open>
  Modelled from the spec: the Sort-State Manager (\<open>./columnStatesManager\<close>, which is not
  among the sources): the criteria queue is replaced as a whole, read back, asked for its
  columns and for the order of a column, and asked whether it is empty.
\<close>

definition setSortStates :: "columnSortState list \<Rightarrow> plugin \<Rightarrow> plugin" where
  "setSortStates sortStates this = this\<lparr>sortedColumnsStates := sortStates\<rparr>"

definition getSortStates :: "plugin \<Rightarrow> columnSortState list" where
  "getSortStates this = sortedColumnsStates this"

definition getSortedColumns :: "plugin \<Rightarrow> int list" where
  "getSortedColumns this = map column (sortedColumnsStates this)"

definition getSortOrderOfColumn :: "plugin \<Rightarrow> int \<Rightarrow> string option" where
  "getSortOrderOfColumn this searchedColumn =
    map_option sortOrder (find (\<lambda>s. column s = searchedColumn) (sortedColumnsStates this))"

definition isListOfSortedColumnsEmpty :: "plugin \<Rightarrow> bool" where
  "isListOfSortedColumnsEmpty this = (length (sortedColumnsStates this) = 0)"

definition getAllColumnsProperties :: "plugin \<Rightarrow> pluginSettings" where
  "getAllColumnsProperties this = columnsProperties this"

section \<open>Merged settings of a column\<close>

definition setMergedPluginSettings :: "hot \<Rightarrow> plugin \<Rightarrow> int \<Rightarrow> exn + plugin" where
  "setMergedPluginSettings h this col =
    (let physicalColumnIndex = toPhysicalColumn h col;
         storedColumnProperties = getAllColumnsProperties this
     in case getCellMeta h this 0 col of
          Inl e \<Rightarrow> Inl e
        | Inr cellMeta \<Rightarrow>
            Inr (this\<lparr>columnMetaCache :=
              AList.update physicalColumnIndex (assignPluginSettings h storedColumnProperties col)
                (columnMetaCache this)\<rparr>))"

text \<open>
  \<open>rangeEach(numberOfColumns, f)\<close> of the host's helpers calls \<open>f\<close> for the indexes
  0, 1, ... up to and including its bound; an exception ends the loop, with the cache as
  filled so far.
\<close>

fun setMergedPluginSettingsEach :: "hot \<Rightarrow> plugin \<Rightarrow> int list \<Rightarrow> plugin \<times> exn option" where
  "setMergedPluginSettingsEach h this [] = (this, None)"
| "setMergedPluginSettingsEach h this (visualColumnIndex # rest) =
    (case setMergedPluginSettings h this visualColumnIndex of
       Inl e \<Rightarrow> (this, Some e)
     | Inr this' \<Rightarrow> setMergedPluginSettingsEach h this' rest)"

text \<open>
  The first block of \<open>getFirstCellSettings\<close>: when the cache is empty
  (\<open>columnMetaCache.size === 0\<close>), the merged settings of every column are computed.
\<close>

definition fillColumnMetaCache :: "hot \<Rightarrow> plugin \<Rightarrow> plugin \<times> exn option" where
  "fillColumnMetaCache h this =
    (if length (columnMetaCache this) = 0
     then setMergedPluginSettingsEach h this (map int [0..<Suc (countCols h)])
     else (this, None))"

text \<open>
  The result pairs the state at the exit with the exception thrown or the copy of the
  cell meta returned.
\<close>

definition getFirstCellSettings :: "hot \<Rightarrow> plugin \<Rightarrow> int \<Rightarrow> plugin \<times> (exn + columnMeta)" where
  "getFirstCellSettings h this col =
    (case fillColumnMetaCache h (this\<lparr>blockPluginTranslation := True\<rparr>) of
       (this2, Some e) \<Rightarrow> (this2, Inl e)
     | (this2, None) \<Rightarrow>
        (case getCellMeta h this2 0 col of
           Inl e \<Rightarrow> (this2, Inl e)
         | Inr cellMeta \<Rightarrow>
            (this2\<lparr>blockPluginTranslation := False\<rparr>,
             Inr (cellMeta\<lparr>multiColumnSorting :=
               map_of (columnMetaCache this2) (toPhysicalColumn h col)\<rparr>))))"

section \<open>The sort pass\<close>

definition getNumberOfRowsToSort :: "hot \<Rightarrow> nat \<Rightarrow> int" where
  "getNumberOfRowsToSort h numberOfRows =
    (if maxRows h \<le> enat numberOfRows then int (the_enat (maxRows h))
     else int numberOfRows - int (minSpareRows h))"

text \<open>
  The function that \<open>mainSortComparator(sortOrders, columnMetas)\<close> returns, as the sort
  calls it: with two row snapshots, the column index taking its default 0.
\<close>

definition rowComparator ::
  "hot \<Rightarrow> string option list \<Rightarrow> columnMeta list \<Rightarrow> rowSnapshot \<Rightarrow> rowSnapshot \<Rightarrow> exn + int" where
  "rowComparator h sortOrders columnMetas row nextRow =
    mainSortComparator (momentOf h) (builtinSortOf h) sortOrders columnMetas row nextRow 0"

text \<open>\<open>arrayMap\<close> of the host's helpers, over a function that may throw.\<close>

fun arrayMap :: "'a list \<Rightarrow> ('a \<Rightarrow> exn + 'b) \<Rightarrow> exn + 'b list" where
  "arrayMap [] f = Inr []"
| "arrayMap (x # xs) f =
    (case f x of
       Inl e \<Rightarrow> Inl e
     | Inr y \<Rightarrow> (case arrayMap xs f of Inl e \<Rightarrow> Inl e | Inr ys \<Rightarrow> Inr (y # ys)))"

definition getDataForSortedColumns :: "hot \<Rightarrow> plugin \<Rightarrow> int list \<Rightarrow> nat \<Rightarrow> exn + cell list" where
  "getDataForSortedColumns h this sortedColumnsList visualRowIndex =
    arrayMap sortedColumnsList
      (\<lambda>physicalColumn. getDataAtCell h this (int visualRowIndex) (toVisualColumn h physicalColumn))"

text \<open>
  The two loops that push \<open>[visualRowIndex].concat(getDataForSortedColumns(visualRowIndex))\<close>
  for the visual rows of a range, in order.
\<close>

fun pushIndexesWithData :: "hot \<Rightarrow> plugin \<Rightarrow> int list \<Rightarrow> nat list \<Rightarrow> exn + rowSnapshot list" where
  "pushIndexesWithData h this sortedColumnsList [] = Inr []"
| "pushIndexesWithData h this sortedColumnsList (visualRowIndex # rest) =
    (case getDataForSortedColumns h this sortedColumnsList visualRowIndex of
       Inl e \<Rightarrow> Inl e
     | Inr rowData \<Rightarrow>
        (case pushIndexesWithData h this sortedColumnsList rest of
           Inl e \<Rightarrow> Inl e
         | Inr others \<Rightarrow> Inr ((visualRowIndex, rowData) # others)))"

text \<open>
  The second argument of \<open>mainSortComparator\<close>: \<open>getFirstCellSettings\<close> for every sorted
  column in turn, each call working on the state the one before left.
\<close>

fun getFirstCellSettingsEach :: "hot \<Rightarrow> plugin \<Rightarrow> int list \<Rightarrow> plugin \<times> (exn + columnMeta list)" where
  "getFirstCellSettingsEach h this [] = (this, Inr [])"
| "getFirstCellSettingsEach h this (physicalColumn # rest) =
    (case getFirstCellSettings h this (toVisualColumn h physicalColumn) of
       (this1, Inl e) \<Rightarrow> (this1, Inl e)
     | (this1, Inr cellMeta) \<Rightarrow>
        (case getFirstCellSettingsEach h this1 rest of
           (this2, Inl e) \<Rightarrow> (this2, Inl e)
         | (this2, Inr cellMetas) \<Rightarrow> (this2, Inr (cellMeta # cellMetas))))"

text \<open>
  The result pairs the state at the exit with the exception thrown, if any. The first
  loop runs while \<open>visualRowIndex < getNumberOfRowsToSort(numberOfRows)\<close>, the second from
  the length of the sorted array up to the number of rows.
\<close>

definition sortByPresetSortState :: "hot \<Rightarrow> plugin \<Rightarrow> plugin \<times> exn option" where
  "sortByPresetSortState h this =
    (if isListOfSortedColumnsEmpty this then (clearMap this, None)
     else
       (let sortedColumnsList = getSortedColumns this;
            numberOfRows = countRows h;
            this1 = this\<lparr>blockPluginTranslation := True\<rparr>
        in case pushIndexesWithData h this1 sortedColumnsList
                  [0..<nat (getNumberOfRowsToSort h numberOfRows)] of
             Inl e \<Rightarrow> (this1, Some e)
           | Inr indexesWithData \<Rightarrow>
              (case getFirstCellSettingsEach h this1 sortedColumnsList of
                 (this2, Inl e) \<Rightarrow> (this2, Some e)
               | (this2, Inr columnMetas) \<Rightarrow>
                  (case mergeSort
                          (rowComparator h
                             (map (getSortOrderOfColumn this) sortedColumnsList) columnMetas)
                          indexesWithData of
                     Inl e \<Rightarrow> (this2, Some e)
                   | Inr sortedRows \<Rightarrow>
                      (case pushIndexesWithData h this2 sortedColumnsList
                              [length sortedRows..<numberOfRows] of
                         Inl e \<Rightarrow> (this2, Some e)
                       | Inr spareRows \<Rightarrow>
                          (this2\<lparr>blockPluginTranslation := False,
                                 rowsMapper := map fst (sortedRows @ spareRows)\<rparr>, None))))))"

section \<open>The public sort\<close>

text \<open>The argument of \<open>sort\<close>: nothing, one configuration object, or an array of them.\<close>

datatype sortConfigArg =
  NoSortConfig | SingleSortConfig columnSortState | SortConfigs "columnSortState list"

text \<open>The notifications \<open>sort\<close> fires, with their arguments.\<close>

datatype notification =
  BeforeColumnSort "columnSortState list" "columnSortState list" bool
| AfterColumnSort "columnSortState list" "columnSortState list" bool

definition getSortConfig :: "hot \<Rightarrow> plugin \<Rightarrow> columnSortState list" where
  "getSortConfig h this =
    map (\<lambda>columnState. columnState\<lparr>column := toVisualColumn h (column columnState)\<rparr>)
      (getSortStates this)"

text \<open>
  Modelled from the spec: the validation rule of the Sort-State Manager
  (\<open>areValidSortStates\<close> of \<open>./utils\<close>, which is not among the sources): no column
  appears twice, and every direction is one of the two recognized values.
\<close>

definition areValidSortStates :: "columnSortState list \<Rightarrow> bool" where
  "areValidSortStates sortStates =
    (distinct (map column sortStates) \<and>
     list_all (\<lambda>s. sortOrder s = ''asc'' \<or> sortOrder s = ''desc'') sortStates)"

definition areValidSortConfigs :: "hot \<Rightarrow> columnSortState list \<Rightarrow> bool" where
  "areValidSortConfigs h sortConfigs =
    (let sortedColumns = map column sortConfigs;
         numberOfColumns = int (countCols h);
         onlyExistingVisualIndexes =
           list_all (\<lambda>visualColumn. visualColumn \<le> numberOfColumns \<and> visualColumn \<ge> 0)
             sortedColumns
     in areValidSortStates sortConfigs \<and> onlyExistingVisualIndexes)"

definition saveAllSortSettings :: "hot \<Rightarrow> plugin \<Rightarrow> plugin" where
  "saveAllSortSettings h this =
    (if persistentState h
     then this\<lparr>savedSortSettings := Some (getAllColumnsProperties this, getSortStates this)\<rparr>
     else this)"

text \<open>
  The array that \<open>sort\<close> hands to the hooks: empty for no argument, the argument itself
  when it is an array, and the one-element array of the argument otherwise.
\<close>

fun destinationSortConfigsOf :: "sortConfigArg \<Rightarrow> columnSortState list" where
  "destinationSortConfigsOf NoSortConfig = []"
| "destinationSortConfigsOf (SortConfigs configs) = configs"
| "destinationSortConfigsOf (SingleSortConfig config) = [config]"

text \<open>
  The result is the state at the exit, the notifications fired, and the exception thrown,
  if any. Rendering is left to the host.
\<close>

definition sort :: "hot \<Rightarrow> plugin \<Rightarrow> sortConfigArg \<Rightarrow> plugin \<times> notification list \<times> exn option" where
  "sort h this sortConfig =
    (let currentSortConfig = getSortConfig h this;
         destinationSortConfigs = destinationSortConfigsOf sortConfig;
         sortPossible = areValidSortConfigs h destinationSortConfigs;
         allowSort = beforeColumnSort h currentSortConfig destinationSortConfigs sortPossible;
         before = BeforeColumnSort currentSortConfig destinationSortConfigs sortPossible
     in if allowSort = False then (this, [before], None)
        else if sortPossible then
          (let destinationSortStates =
                 map (\<lambda>columnSortConfig.
                        columnSortConfig\<lparr>column := toPhysicalColumn h (column columnSortConfig)\<rparr>)
                   destinationSortConfigs
           in case sortByPresetSortState h (setSortStates destinationSortStates this) of
                (this2, Some e) \<Rightarrow> (this2, [before], Some e)
              | (this2, None) \<Rightarrow>
                 (let this3 = saveAllSortSettings h this2
                  in (this3,
                      [before, AfterColumnSort currentSortConfig (getSortConfig h this3) sortPossible],
                      None)))
        else
          (this, [before, AfterColumnSort currentSortConfig (getSortConfig h this) sortPossible],
           None))"

definition clearSort :: "hot \<Rightarrow> plugin \<Rightarrow> plugin \<times> notification list \<times> exn option" where
  "clearSort h this = sort h this (SortConfigs [])"

section \<open>Example tables\<close>

text \<open>
  A table with one column of type \<open>date\<close> holding the given values, the plugin's settings
  merged to the given \<open>sortEmptyCells\<close>, no row or column translation of the host's own,
  hooks that never veto, and a date parser that reads a number as its own time stamp and
  rejects every other value.
\<close>

definition exampleSettings :: "bool \<Rightarrow> pluginSettings" where
  "exampleSettings emptyCellsSorted =
    \<lparr>sortEmptyCells = emptyCellsSorted, indicator = True, headerAction = True,
     compareFunctionFactory = None\<rparr>"

definition exampleHot :: "cell list \<Rightarrow> bool \<Rightarrow> hot" where
  "exampleHot vs emptyCellsSorted =
    \<lparr>countRows = length vs, countCols = 1, maxRows = \<infinity>, minSpareRows = 0,
     toPhysicalColumn = (\<lambda>c. c), toVisualColumn = (\<lambda>c. c),
     dataAtPhysicalRow = (\<lambda>r c. Inr (if 0 \<le> r then valueAt vs (nat r) else Undefined)),
     cellMetaAtPhysicalRow =
       (\<lambda>r c. Inr \<lparr>colType = ''date'', dateFormat = ''DD/MM/YYYY'', multiColumnSorting = None\<rparr>),
     assignPluginSettings = (\<lambda>stored c. stored\<lparr>sortEmptyCells := emptyCellsSorted\<rparr>),
     beforeColumnSort = (\<lambda>current destination possible. True),
     persistentState = True,
     momentOf = (\<lambda>v format. case v of Num n \<Rightarrow> Some n | _ \<Rightarrow> None),
     builtinSortOf = (\<lambda>meta order v w. Inr DO_NOT_SWAP)\<rparr>"

text \<open>The plugin as its constructor leaves it.\<close>

definition examplePlugin :: plugin where
  "examplePlugin =
    \<lparr>pluginName = ''multiColumnSorting'', sortedColumnsStates = [],
     columnsProperties = exampleSettings False, rowsMapper = [],
     blockPluginTranslation = True, columnMetaCache = [], savedSortSettings = None\<rparr>"

definition ascending :: "int \<Rightarrow> columnSortState" where
  "ascending c = \<lparr>column = c, sortOrder = ''asc''\<rparr>"

definition descending :: "int \<Rightarrow> columnSortState" where
  "descending c = \<lparr>column = c, sortOrder = ''desc''\<rparr>"

text \<open>The column meta of the example's date column, as the comparator gets it.\<close>

definition exampleDateMeta :: "bool \<Rightarrow> columnMeta" where
  "exampleDateMeta emptyCellsSorted =
    \<lparr>colType = ''date'', dateFormat = ''DD/MM/YYYY'',
     multiColumnSorting = Some (exampleSettings emptyCellsSorted)\<rparr>"

text \<open>
  A table of several date columns, given column by column; everything else is as in the
  one-column example.
\<close>

definition exampleColumnsHot :: "cell list list \<Rightarrow> hot" where
  "exampleColumnsHot columns =
    (exampleHot (case columns of [] \<Rightarrow> [] | firstColumn # others \<Rightarrow> firstColumn) False)
      \<lparr>countCols := length columns,
       dataAtPhysicalRow :=
         (\<lambda>r c. Inr (if 0 \<le> r \<and> 0 \<le> c \<and> nat c < length columns
                       then valueAt (columns ! nat c) (nat r) else Undefined))\<rparr>"

section \<open>The contract of a comparator\<close>

text \<open>
  A comparator puts \<open>a\<close> not after \<open>b\<close> when it returns, and returns a number that is
  not greater than zero: the sort then keeps \<open>a\<close> before \<open>b\<close>.
\<close>

definition notAfter :: "('a \<Rightarrow> 'a \<Rightarrow> exn + int) \<Rightarrow> 'a \<Rightarrow> 'a \<Rightarrow> bool" where
  "notAfter compareFunction a b =
    (case compareFunction a b of Inl e \<Rightarrow> False | Inr c \<Rightarrow> c \<le> 0)"

text \<open>
  The three-way contract on the elements of a list: of any two elements one is not after
  the other, and "not after" is transitive.
\<close>

definition consistentComparator :: "('a \<Rightarrow> 'a \<Rightarrow> exn + int) \<Rightarrow> 'a list \<Rightarrow> bool" where
  "consistentComparator compareFunction xs =
    ((\<forall>a \<in> set xs. \<forall>b \<in> set xs.
        notAfter compareFunction a b \<or> notAfter compareFunction b a) \<and>
     (\<forall>a \<in> set xs. \<forall>b \<in> set xs. \<forall>c \<in> set xs.
        notAfter compareFunction a b \<and> notAfter compareFunction b c
          \<longrightarrow> notAfter compareFunction a c))"

section \<open>The number of rows to sort\<close>

text \<open>
  C6, as amended. \<open>getNumberOfRowsToSort\<close> returns \<open>min(maxRows, totalRows)\<close> without
  subtracting the spare rows when \<open>maxRows\<close> is at most the total row count, and the
  total row count minus \<open>minSpareRows\<close> otherwise. The result is below zero exactly when
  \<open>maxRows\<close> exceeds the total row count and \<open>minSpareRows\<close> exceeds it too.
\<close>

theorem getNumberOfRowsToSort_value:
  "getNumberOfRowsToSort h numberOfRows =
     int (the_enat (min (maxRows h) (enat numberOfRows)))
       - (if maxRows h \<le> enat numberOfRows then 0 else int (minSpareRows h))
   \<and> (0 \<le> getNumberOfRowsToSort h numberOfRows) =
       (maxRows h \<le> enat numberOfRows \<or> minSpareRows h \<le> numberOfRows)"
  by (cases "maxRows h") (auto simp: getNumberOfRowsToSort_def min_def)

text \<open>With \<open>maxRows = 3\<close> and one spare row, 5 rows give 3; with no \<open>maxRows\<close> they give 4.\<close>

theorem getNumberOfRowsToSort_value_witness:
  "getNumberOfRowsToSort ((exampleHot [] False)\<lparr>maxRows := enat 3, minSpareRows := 1\<rparr>) 5 = 3
   \<and> getNumberOfRowsToSort ((exampleHot [] False)\<lparr>minSpareRows := 1\<rparr>) 5 = 4"
  using getNumberOfRowsToSort_value [of "(exampleHot [] False)\<lparr>maxRows := enat 3, minSpareRows := 1\<rparr>" 5]
    getNumberOfRowsToSort_value [of "(exampleHot [] False)\<lparr>minSpareRows := 1\<rparr>" 5]
  by (simp add: exampleHot_def min_def)

text \<open>
  The formula \<open>min(maxRows, totalRows) - minSpareRows\<close> gives \<open>min(3, 5) - 1 = 2\<close> where
  the function returns 3, and the function returns \<open>-1\<close> for one row and two spare rows.
\<close>

theorem getNumberOfRowsToSort_counterexample:
  "getNumberOfRowsToSort ((exampleHot [] False)\<lparr>maxRows := enat 3, minSpareRows := 1\<rparr>) 5
     \<noteq> int (the_enat (min (enat 3) (enat 5))) - 1
   \<and> getNumberOfRowsToSort ((exampleHot [] False)\<lparr>minSpareRows := 2\<rparr>) 1 < 0"
  by (simp add: getNumberOfRowsToSort_def exampleHot_def min_def)

section \<open>The row translation hook\<close>

text \<open>
  C10. \<open>onModifyRow\<close> returns its row unchanged when the translation is suppressed, when
  the source tag is the plugin's name, or when the mapper has no entry at the row (the row
  is negative or not below the mapper's length); otherwise it returns the mapper's entry.
\<close>

theorem onModifyRow_translation:
  "(blockPluginTranslation this \<or> source = Some (pluginName this)
      \<or> getValueByIndex (rowsMapper this) row = None
     \<longrightarrow> onModifyRow this row source = row)
   \<and> (\<not> blockPluginTranslation this \<and> source \<noteq> Some (pluginName this)
      \<and> getValueByIndex (rowsMapper this) row = Some physicalRow
     \<longrightarrow> onModifyRow this row source = int physicalRow)
   \<and> (getValueByIndex (rowsMapper this) row = None
        \<longleftrightarrow> row < 0 \<or> int (length (rowsMapper this)) \<le> row)"
  by (auto simp: onModifyRow_def getValueByIndex_def)

theorem onModifyRow_translation_witness:
  "onModifyRow (examplePlugin\<lparr>rowsMapper := [2, 0, 1]\<rparr>) 0 None = 0
   \<and> onModifyRow (examplePlugin\<lparr>rowsMapper := [2, 0, 1], blockPluginTranslation := False\<rparr>) 0
        (Some ''multiColumnSorting'') = 0
   \<and> onModifyRow (examplePlugin\<lparr>rowsMapper := [2, 0, 1], blockPluginTranslation := False\<rparr>) 3 None = 3
   \<and> onModifyRow (examplePlugin\<lparr>rowsMapper := [2, 0, 1], blockPluginTranslation := False\<rparr>) 0 None = 2"
  using onModifyRow_translation [of "examplePlugin\<lparr>rowsMapper := [2, 0, 1]\<rparr>" None 0 0]
    onModifyRow_translation [of "examplePlugin\<lparr>rowsMapper := [2, 0, 1], blockPluginTranslation := False\<rparr>"
      "Some ''multiColumnSorting''" 0 0]
    onModifyRow_translation [of "examplePlugin\<lparr>rowsMapper := [2, 0, 1], blockPluginTranslation := False\<rparr>"
      None 3 0]
    onModifyRow_translation [of "examplePlugin\<lparr>rowsMapper := [2, 0, 1], blockPluginTranslation := False\<rparr>"
      None 0 2]
  by (simp add: examplePlugin_def getValueByIndex_def)

section \<open>The public sort: veto and validation\<close>

text \<open>
  C7. When the \<open>beforeColumnSort\<close> hook returns \<open>false\<close>, \<open>sort\<close> returns with the
  whole state as it was (the sort queue, the rows mapper and the saved settings among it),
  for every requested configuration, valid or not; only \<open>beforeColumnSort\<close> was fired.
\<close>

theorem sort_veto_changes_nothing:
  assumes "beforeColumnSort h (getSortConfig h this) (destinationSortConfigsOf sortConfig)
             (areValidSortConfigs h (destinationSortConfigsOf sortConfig)) = False"
  shows "sort h this sortConfig =
           (this,
            [BeforeColumnSort (getSortConfig h this) (destinationSortConfigsOf sortConfig)
               (areValidSortConfigs h (destinationSortConfigsOf sortConfig))],
            None)"
  using assms by (simp add: sort_def Let_def)

theorem sort_veto_changes_nothing_witness:
  "sort ((exampleHot [Num 5, Null, Num 3] False)\<lparr>beforeColumnSort := (\<lambda>current destination possible. False)\<rparr>)
     (examplePlugin\<lparr>sortedColumnsStates := [descending 0], rowsMapper := [0, 2, 1]\<rparr>)
     (SingleSortConfig (ascending 0))
   = (examplePlugin\<lparr>sortedColumnsStates := [descending 0], rowsMapper := [0, 2, 1]\<rparr>,
      [BeforeColumnSort [descending 0] [ascending 0] True], None)"
proof -
  let ?h = "(exampleHot [Num 5, Null, Num 3] False)\<lparr>beforeColumnSort := (\<lambda>current destination possible. False)\<rparr>"
  let ?p = "examplePlugin\<lparr>sortedColumnsStates := [descending 0], rowsMapper := [0, 2, 1]\<rparr>"
  have veto: "beforeColumnSort ?h (getSortConfig ?h ?p)
      (destinationSortConfigsOf (SingleSortConfig (ascending 0)))
      (areValidSortConfigs ?h (destinationSortConfigsOf (SingleSortConfig (ascending 0)))) = False"
    by simp
  have cur: "getSortConfig ?h ?p = [descending 0]"
    by (simp add: getSortConfig_def getSortStates_def exampleHot_def descending_def)
  have ok: "areValidSortConfigs ?h [ascending 0] = True"
    by (simp add: areValidSortConfigs_def areValidSortStates_def exampleHot_def ascending_def)
  show ?thesis
    using sort_veto_changes_nothing [OF veto] cur ok by simp
qed

lemma sort_rejected_config_changes_nothing:
  assumes "\<not> areValidSortConfigs h (destinationSortConfigsOf sortConfig)"
    and "beforeColumnSort h (getSortConfig h this) (destinationSortConfigsOf sortConfig) False"
  shows "sort h this sortConfig =
           (this,
            [BeforeColumnSort (getSortConfig h this) (destinationSortConfigsOf sortConfig) False,
             AfterColumnSort (getSortConfig h this) (getSortConfig h this) False],
            None)"
  using assms by (simp add: sort_def Let_def)

text \<open>
  C3. The bounds check of \<open>areValidSortConfigs\<close> accepts the column index that equals the
  number of columns: in a table of one column, \<open>sort({ column: 1, sortOrder: 'asc' })\<close> is
  taken as valid, replaces the sort queue and the rows mapper, and \<open>afterColumnSort\<close>
  carries \<open>true\<close>.
\<close>

theorem sort_accepts_column_equal_to_count:
  "countCols (exampleHot [Num 5, Null, Num 3] False) = 1
   \<and> areValidSortConfigs (exampleHot [Num 5, Null, Num 3] False) [ascending 1] = True
   \<and> sortedColumnsStates (fst (sort (exampleHot [Num 5, Null, Num 3] False) examplePlugin
        (SingleSortConfig (ascending 1)))) = [ascending 1]
   \<and> rowsMapper (fst (sort (exampleHot [Num 5, Null, Num 3] False) examplePlugin
        (SingleSortConfig (ascending 1)))) = [2, 0, 1]
   \<and> snd (sort (exampleHot [Num 5, Null, Num 3] False) examplePlugin
        (SingleSortConfig (ascending 1)))
      = ([BeforeColumnSort [] [ascending 1] True, AfterColumnSort [] [ascending 1] True], None)"
  by code_simp

section \<open>The date comparator: empty and unparsable values\<close>

text \<open>
  Two non-empty, different values of a date column: a value that does not parse is
  ordered after one that does, whatever the direction; two dates are compared by their
  time stamps, the result inverted for every direction but \<open>asc\<close>; and a first value that
  does not parse is ordered after the second one without a look at the second.
\<close>

lemma dateSort_unparsable_against_parsable:
  assumes "sortedColumnIndex < length columnMetas"
    and "multiColumnSorting (columnMetas ! sortedColumnIndex) = Some settings"
    and "\<not> isEmpty (valueAt (snd badRow) sortedColumnIndex)"
    and "\<not> isEmpty (valueAt (snd goodRow) sortedColumnIndex)"
    and "moment (valueAt (snd badRow) sortedColumnIndex)
           (dateFormat (columnMetas ! sortedColumnIndex)) = None"
    and "moment (valueAt (snd goodRow) sortedColumnIndex)
           (dateFormat (columnMetas ! sortedColumnIndex)) = Some date"
  shows "dateSort moment next sortOrders columnMetas badRow goodRow sortedColumnIndex
           = Inr FIRST_AFTER_SECOND"
    and "dateSort moment next sortOrders columnMetas goodRow badRow sortedColumnIndex
           = Inr FIRST_BEFORE_SECOND"
proof -
  have "valueAt (snd badRow) sortedColumnIndex \<noteq> valueAt (snd goodRow) sortedColumnIndex"
    using assms(5,6) by auto
  then show "dateSort moment next sortOrders columnMetas badRow goodRow sortedColumnIndex
           = Inr FIRST_AFTER_SECOND"
    and "dateSort moment next sortOrders columnMetas goodRow badRow sortedColumnIndex
           = Inr FIRST_BEFORE_SECOND"
    using assms by (auto simp: dateSort_def Let_def)
qed

lemma dateSort_two_dates:
  assumes "sortedColumnIndex < length columnMetas"
    and "multiColumnSorting (columnMetas ! sortedColumnIndex) = Some settings"
    and "\<not> isEmpty (valueAt (snd row) sortedColumnIndex)"
    and "\<not> isEmpty (valueAt (snd nextRow) sortedColumnIndex)"
    and "valueAt (snd row) sortedColumnIndex \<noteq> valueAt (snd nextRow) sortedColumnIndex"
    and "moment (valueAt (snd row) sortedColumnIndex)
           (dateFormat (columnMetas ! sortedColumnIndex)) = Some firstDate"
    and "moment (valueAt (snd nextRow) sortedColumnIndex)
           (dateFormat (columnMetas ! sortedColumnIndex)) = Some nextDate"
  shows "dateSort moment next sortOrders columnMetas row nextRow sortedColumnIndex =
    Inr (if firstDate < nextDate then
           (if sortOrderAt sortOrders sortedColumnIndex = Some ''asc''
            then FIRST_BEFORE_SECOND else FIRST_AFTER_SECOND)
         else if nextDate < firstDate then
           (if sortOrderAt sortOrders sortedColumnIndex = Some ''asc''
            then FIRST_AFTER_SECOND else FIRST_BEFORE_SECOND)
         else DO_NOT_SWAP)"
  using assms by (simp add: dateSort_def Let_def)

lemma dateSort_first_unparsable:
  assumes "sortedColumnIndex < length columnMetas"
    and "multiColumnSorting (columnMetas ! sortedColumnIndex) = Some settings"
    and "\<not> isEmpty (valueAt (snd row) sortedColumnIndex)"
    and "\<not> isEmpty (valueAt (snd nextRow) sortedColumnIndex)"
    and "valueAt (snd row) sortedColumnIndex \<noteq> valueAt (snd nextRow) sortedColumnIndex"
    and "moment (valueAt (snd row) sortedColumnIndex)
           (dateFormat (columnMetas ! sortedColumnIndex)) = None"
  shows "dateSort moment next sortOrders columnMetas row nextRow sortedColumnIndex
           = Inr FIRST_AFTER_SECOND"
  using assms by (simp add: dateSort_def Let_def)

text \<open>
  C5. For two different values that both fail to parse, \<open>dateSort\<close> answers
  "first after second" whichever of the two comes first, and does not take the result of
  the next criterion (here "first before second").
\<close>

theorem dateSort_two_unparsable_values:
  "momentOf (exampleHot [] False) (Str ''foo'') ''DD/MM/YYYY'' = None
   \<and> momentOf (exampleHot [] False) (Str ''bar'') ''DD/MM/YYYY'' = None
   \<and> dateSort (momentOf (exampleHot [] False)) (Inr FIRST_BEFORE_SECOND) [Some ''asc'']
        [exampleDateMeta False] (0, [Str ''foo'']) (1, [Str ''bar'']) 0 = Inr FIRST_AFTER_SECOND
   \<and> dateSort (momentOf (exampleHot [] False)) (Inr FIRST_BEFORE_SECOND) [Some ''asc'']
        [exampleDateMeta False] (1, [Str ''bar'']) (0, [Str ''foo'']) 0 = Inr FIRST_AFTER_SECOND"
  by code_simp

lemma dateSort_empty_first:
  assumes "sortedColumnIndex < length columnMetas"
    and "multiColumnSorting (columnMetas ! sortedColumnIndex) = Some settings"
    and "isEmpty (valueAt (snd row) sortedColumnIndex)"
    and "\<not> isEmpty (valueAt (snd nextRow) sortedColumnIndex)"
  shows "dateSort moment next sortOrders columnMetas row nextRow sortedColumnIndex =
    Inr (if sortEmptyCells settings
         then (if sortOrderAt sortOrders sortedColumnIndex = Some ''asc''
               then FIRST_BEFORE_SECOND else FIRST_AFTER_SECOND)
         else FIRST_AFTER_SECOND)"
proof -
  have "valueAt (snd row) sortedColumnIndex \<noteq> valueAt (snd nextRow) sortedColumnIndex"
    using assms(3,4) by auto
  then show ?thesis
    using assms by (simp add: dateSort_def Let_def)
qed

lemma dateSort_empty_second:
  assumes "sortedColumnIndex < length columnMetas"
    and "multiColumnSorting (columnMetas ! sortedColumnIndex) = Some settings"
    and "\<not> isEmpty (valueAt (snd row) sortedColumnIndex)"
    and "isEmpty (valueAt (snd nextRow) sortedColumnIndex)"
  shows "dateSort moment next sortOrders columnMetas row nextRow sortedColumnIndex =
    Inr (if sortEmptyCells settings
         then (if sortOrderAt sortOrders sortedColumnIndex = Some ''asc''
               then FIRST_AFTER_SECOND else FIRST_BEFORE_SECOND)
         else FIRST_BEFORE_SECOND)"
proof -
  have "valueAt (snd row) sortedColumnIndex \<noteq> valueAt (snd nextRow) sortedColumnIndex"
    using assms(3,4) by auto
  then show ?thesis
    using assms by (simp add: dateSort_def Let_def)
qed

lemma example_empty_cells_last:
  "map (valueAt [Num 5, Null, Num 3])
     (rowsMapper (fst (sort (exampleHot [Num 5, Null, Num 3] False) examplePlugin
        (SingleSortConfig (ascending 0)))))
   = [Num 3, Num 5, Null]"
  by code_simp

lemma example_empty_cells_sorted:
  "map (valueAt [Num 5, Null, Num 3])
     (rowsMapper (fst (sort (exampleHot [Num 5, Null, Num 3] True) examplePlugin
        (SingleSortConfig (ascending 0)))))
   = [Null, Num 3, Num 5]"
  by code_simp

text \<open>
  C4. When exactly one of the two compared values of a date column is empty: with
  \<open>sortEmptyCells\<close> false the empty value is ordered after the other one whatever the
  direction; with \<open>sortEmptyCells\<close> true the empty value is ordered first for \<open>asc\<close> and
  last for \<open>desc\<close>. Sorting the one-column table \<open>[5, null, 3]\<close> ascending shows the
  values in the order \<open>[3, 5, null]\<close> with \<open>sortEmptyCells\<close> false and
  \<open>[null, 3, 5]\<close> with \<open>sortEmptyCells\<close> true.
\<close>

theorem dateSort_one_empty_value:
  assumes "sortedColumnIndex < length columnMetas"
    and "multiColumnSorting (columnMetas ! sortedColumnIndex) = Some settings"
    and "isEmpty (valueAt (snd emptyRow) sortedColumnIndex)"
    and "\<not> isEmpty (valueAt (snd filledRow) sortedColumnIndex)"
  shows
    "(\<not> sortEmptyCells settings \<longrightarrow>
        dateSort moment next sortOrders columnMetas emptyRow filledRow sortedColumnIndex
          = Inr FIRST_AFTER_SECOND
        \<and> dateSort moment next sortOrders columnMetas filledRow emptyRow sortedColumnIndex
          = Inr FIRST_BEFORE_SECOND)
     \<and> (sortEmptyCells settings \<and> sortOrderAt sortOrders sortedColumnIndex = Some ''asc'' \<longrightarrow>
        dateSort moment next sortOrders columnMetas emptyRow filledRow sortedColumnIndex
          = Inr FIRST_BEFORE_SECOND
        \<and> dateSort moment next sortOrders columnMetas filledRow emptyRow sortedColumnIndex
          = Inr FIRST_AFTER_SECOND)
     \<and> (sortEmptyCells settings \<and> sortOrderAt sortOrders sortedColumnIndex = Some ''desc'' \<longrightarrow>
        dateSort moment next sortOrders columnMetas emptyRow filledRow sortedColumnIndex
          = Inr FIRST_AFTER_SECOND
        \<and> dateSort moment next sortOrders columnMetas filledRow emptyRow sortedColumnIndex
          = Inr FIRST_BEFORE_SECOND)
     \<and> map (valueAt [Num 5, Null, Num 3])
          (rowsMapper (fst (sort (exampleHot [Num 5, Null, Num 3] False) examplePlugin
             (SingleSortConfig (ascending 0)))))
        = [Num 3, Num 5, Null]
     \<and> map (valueAt [Num 5, Null, Num 3])
          (rowsMapper (fst (sort (exampleHot [Num 5, Null, Num 3] True) examplePlugin
             (SingleSortConfig (ascending 0)))))
        = [Null, Num 3, Num 5]"
  using dateSort_empty_first [OF assms, of moment "next" sortOrders]
    dateSort_empty_second [OF assms(1,2,4,3), of moment "next" sortOrders]
    example_empty_cells_last example_empty_cells_sorted
  by simp

theorem dateSort_one_empty_value_witness:
  "dateSort (momentOf (exampleHot [] False)) (Inr DO_NOT_SWAP) [Some ''asc'']
      [exampleDateMeta False] (1, [Null]) (0, [Num 5]) 0 = Inr FIRST_AFTER_SECOND
   \<and> dateSort (momentOf (exampleHot [] False)) (Inr DO_NOT_SWAP) [Some ''desc'']
      [exampleDateMeta False] (0, [Num 5]) (1, [Null]) 0 = Inr FIRST_BEFORE_SECOND
   \<and> dateSort (momentOf (exampleHot [] False)) (Inr DO_NOT_SWAP) [Some ''asc'']
      [exampleDateMeta True] (1, [Null]) (0, [Num 5]) 0 = Inr FIRST_BEFORE_SECOND
   \<and> dateSort (momentOf (exampleHot [] False)) (Inr DO_NOT_SWAP) [Some ''desc'']
      [exampleDateMeta True] (1, [Null]) (0, [Num 5]) 0 = Inr FIRST_AFTER_SECOND"
proof -
  have m: "0 < length [exampleDateMeta b]"
    "multiColumnSorting ([exampleDateMeta b] ! 0) = Some (exampleSettings b)"
    "isEmpty (valueAt (snd (1::nat, [Null])) 0)"
    "\<not> isEmpty (valueAt (snd (0::nat, [Num 5])) 0)" for b
    by (simp_all add: exampleDateMeta_def isEmpty_def valueAt_def)
  have s: "\<not> sortEmptyCells (exampleSettings False)" "sortEmptyCells (exampleSettings True)"
    "sortOrderAt [Some ''asc''] 0 = Some ''asc''" "sortOrderAt [Some ''desc''] 0 = Some ''desc''"
    by (simp_all add: exampleSettings_def sortOrderAt_def)
  show ?thesis
    using dateSort_one_empty_value [OF m, of False "momentOf (exampleHot [] False)" "Inr DO_NOT_SWAP" "[Some ''asc'']"]
      dateSort_one_empty_value [OF m, of False "momentOf (exampleHot [] False)" "Inr DO_NOT_SWAP" "[Some ''desc'']"]
      dateSort_one_empty_value [OF m, of True "momentOf (exampleHot [] False)" "Inr DO_NOT_SWAP" "[Some ''asc'']"]
      dateSort_one_empty_value [OF m, of True "momentOf (exampleHot [] False)" "Inr DO_NOT_SWAP" "[Some ''desc'']"]
      s
    by simp
qed

section \<open>The sort pass: the rows mapper is a permutation\<close>

lemma merge_mset:
  "merge compareFunction ls rs = Inr zs \<Longrightarrow> mset zs = mset ls + mset rs"
proof (induction compareFunction ls rs arbitrary: zs rule: merge.induct)
  case (3 compareFunction l ls r rs)
  then show ?case
    by (auto split: sum.splits if_splits)
qed simp_all

lemma mergeSort_mset:
  "mergeSort compareFunction xs = Inr ys \<Longrightarrow> mset ys = mset xs"
proof (induction compareFunction xs arbitrary: ys rule: mergeSort.induct)
  case (1 compareFunction xs)
  show ?case
  proof (cases "length xs \<le> 1")
    case True
    with "1.prems" show ?thesis
      by (simp add: mergeSort.simps [of compareFunction xs])
  next
    case False
    let ?m = "(length xs + 1) div 2"
    from False "1.prems" obtain ls rs where
      ls: "mergeSort compareFunction (take ?m xs) = Inr ls" and
      rs: "mergeSort compareFunction (drop ?m xs) = Inr rs" and
      zs: "merge compareFunction ls rs = Inr ys"
      by (auto simp: mergeSort.simps [of compareFunction xs] split: sum.splits)
    have "mset ls = mset (take ?m xs)"
      using "1.IH"(1) [OF False ls] .
    moreover have "mset rs = mset (drop ?m xs)"
      using "1.IH"(2) [OF False ls rs] .
    moreover have "mset ys = mset ls + mset rs"
      using merge_mset [OF zs] .
    moreover have "mset (take ?m xs) + mset (drop ?m xs) = mset xs"
      by (metis append_take_drop_id mset_append)
    ultimately show ?thesis
      by simp
  qed
qed

lemma pushIndexesWithData_fst:
  "pushIndexesWithData h this sortedColumnsList vs = Inr rows \<Longrightarrow> map fst rows = vs"
  by (induction vs arbitrary: rows) (auto split: sum.splits)

lemma getNumberOfRowsToSort_le:
  "nat (getNumberOfRowsToSort h numberOfRows) \<le> numberOfRows"
  by (cases "maxRows h") (auto simp: getNumberOfRowsToSort_def)

lemma sortByPresetSortState_success:
  assumes "\<not> isListOfSortedColumnsEmpty this"
    and "sortByPresetSortState h this = (this', None)"
  obtains indexesWithData this2 columnMetas sortedRows spareRows where
    "pushIndexesWithData h (this\<lparr>blockPluginTranslation := True\<rparr>) (getSortedColumns this)
       [0..<nat (getNumberOfRowsToSort h (countRows h))] = Inr indexesWithData"
    "getFirstCellSettingsEach h (this\<lparr>blockPluginTranslation := True\<rparr>) (getSortedColumns this)
       = (this2, Inr columnMetas)"
    "mergeSort (rowComparator h (map (getSortOrderOfColumn this) (getSortedColumns this))
        columnMetas) indexesWithData = Inr sortedRows"
    "pushIndexesWithData h this2 (getSortedColumns this) [length sortedRows..<countRows h]
       = Inr spareRows"
    "this' = this2\<lparr>blockPluginTranslation := False, rowsMapper := map fst (sortedRows @ spareRows)\<rparr>"
  using assms
  by (auto simp: sortByPresetSortState_def Let_def split: sum.splits prod.splits)

text \<open>
  C1. After a sort pass with a non-empty sort queue that returns normally, the array of the
  rows mapper is a permutation of \<open>0, ..., N - 1\<close>, where \<open>N\<close> is the number of rows.
\<close>

theorem sortByPresetSortState_permutation:
  assumes "\<not> isListOfSortedColumnsEmpty this"
    and "sortByPresetSortState h this = (this', None)"
  shows "mset (rowsMapper this') = mset [0..<countRows h]"
proof -
  let ?k = "nat (getNumberOfRowsToSort h (countRows h))"
  from assms obtain indexesWithData this2 columnMetas sortedRows spareRows where
    rows: "pushIndexesWithData h (this\<lparr>blockPluginTranslation := True\<rparr>) (getSortedColumns this)
       [0..<?k] = Inr indexesWithData" and
    sorted: "mergeSort (rowComparator h (map (getSortOrderOfColumn this) (getSortedColumns this))
        columnMetas) indexesWithData = Inr sortedRows" and
    spare: "pushIndexesWithData h this2 (getSortedColumns this) [length sortedRows..<countRows h]
       = Inr spareRows" and
    final: "this' = this2\<lparr>blockPluginTranslation := False, rowsMapper := map fst (sortedRows @ spareRows)\<rparr>"
    by (rule sortByPresetSortState_success)
  have perm: "mset sortedRows = mset indexesWithData"
    using mergeSort_mset [OF sorted] .
  have idx: "map fst indexesWithData = [0..<?k]"
    using pushIndexesWithData_fst [OF rows] .
  have "length sortedRows = length indexesWithData"
    using perm by (metis size_mset)
  also have "\<dots> = ?k"
    using idx by (metis length_map length_upt diff_zero)
  finally have len: "length sortedRows = ?k" .
  have "mset (map fst sortedRows) = mset (map fst indexesWithData)"
    using perm by (metis mset_map)
  then have first: "mset (map fst sortedRows) = mset [0..<?k]"
    using idx by simp
  have rest: "map fst spareRows = [?k..<countRows h]"
    using pushIndexesWithData_fst [OF spare] len by simp
  have "[0..<countRows h] = [0..<?k] @ [?k..<countRows h]"
    using getNumberOfRowsToSort_le [of h "countRows h"]
    by (metis le_add_diff_inverse upt_add_eq_append zero_le)
  then have "mset [0..<countRows h] = mset [0..<?k] + mset [?k..<countRows h]"
    by (metis mset_append)
  then show ?thesis
    using final first rest by simp
qed

theorem sortByPresetSortState_permutation_witness:
  "rowsMapper (fst (sortByPresetSortState (exampleHot [Num 5, Null, Num 3] False)
       (examplePlugin\<lparr>sortedColumnsStates := [ascending 0]\<rparr>))) = [2, 0, 1]
   \<and> mset [2, 0, 1] = mset [0..<3::nat]"
proof -
  let ?h = "exampleHot [Num 5, Null, Num 3] False"
  let ?p = "examplePlugin\<lparr>sortedColumnsStates := [ascending 0]\<rparr>"
  have ne: "\<not> isListOfSortedColumnsEmpty ?p"
    by (simp add: isListOfSortedColumnsEmpty_def)
  have ok: "snd (sortByPresetSortState ?h ?p) = None"
    by code_simp
  have run: "sortByPresetSortState ?h ?p = (fst (sortByPresetSortState ?h ?p), None)"
    using ok by (metis prod.collapse)
  have m: "rowsMapper (fst (sortByPresetSortState ?h ?p)) = [2, 0, 1]"
    by code_simp
  have n: "countRows ?h = 3"
    by (simp add: exampleHot_def)
  show ?thesis
    using sortByPresetSortState_permutation [OF ne run] m n by simp
qed

section \<open>The translation-suppression flag\<close>

lemma setMergedPluginSettings_frame:
  "setMergedPluginSettings h this col = Inr this' \<Longrightarrow>
     this' = this\<lparr>columnMetaCache := columnMetaCache this'\<rparr>"
  by (auto simp: setMergedPluginSettings_def Let_def split: sum.splits)

lemma setMergedPluginSettingsEach_frame:
  "setMergedPluginSettingsEach h this cols = (this', r) \<Longrightarrow>
     this' = this\<lparr>columnMetaCache := columnMetaCache this'\<rparr>"
proof (induction cols arbitrary: this)
  case Nil
  then show ?case by simp
next
  case (Cons c cols)
  show ?case
  proof (cases "setMergedPluginSettings h this c")
    case (Inl e)
    with Cons.prems show ?thesis by simp
  next
    case (Inr this1)
    with Cons.prems have "setMergedPluginSettingsEach h this1 cols = (this', r)"
      by simp
    then have "this' = this1\<lparr>columnMetaCache := columnMetaCache this'\<rparr>"
      by (rule Cons.IH)
    moreover have "this1 = this\<lparr>columnMetaCache := columnMetaCache this1\<rparr>"
      using Inr by (rule setMergedPluginSettings_frame)
    ultimately show ?thesis
      by (metis plugin.update_convs(6) plugin.surjective)
  qed
qed

lemma fillColumnMetaCache_frame:
  "fillColumnMetaCache h this = (this', r) \<Longrightarrow>
     this' = this\<lparr>columnMetaCache := columnMetaCache this'\<rparr>"
  using setMergedPluginSettingsEach_frame
  by (auto simp: fillColumnMetaCache_def split: if_splits)

lemma getFirstCellSettings_frame:
  assumes "getFirstCellSettings h this col = (this', r)"
  shows "this' = this\<lparr>blockPluginTranslation := isl r, columnMetaCache := columnMetaCache this'\<rparr>"
proof -
  obtain this2 thrown where
    fill: "fillColumnMetaCache h (this\<lparr>blockPluginTranslation := True\<rparr>) = (this2, thrown)"
    by (metis prod.collapse)
  have frame: "this2 = this\<lparr>blockPluginTranslation := True, columnMetaCache := columnMetaCache this2\<rparr>"
    using fillColumnMetaCache_frame [OF fill] by simp
  show ?thesis
  proof (cases thrown)
    case (Some e)
    with assms fill have "this' = this2" "r = Inl e"
      by (simp_all add: getFirstCellSettings_def)
    then show ?thesis using frame by simp
  next
    case None
    show ?thesis
    proof (cases "getCellMeta h this2 0 col")
      case (Inl e)
      with assms fill None have "this' = this2" "r = Inl e"
        by (simp_all add: getFirstCellSettings_def)
      then show ?thesis using frame by simp
    next
      case (Inr m)
      with assms fill None have "this' = this2\<lparr>blockPluginTranslation := False\<rparr>" "isl r = False"
        by (auto simp: getFirstCellSettings_def)
      moreover have "this2\<lparr>blockPluginTranslation := False\<rparr> =
        this\<lparr>blockPluginTranslation := False, columnMetaCache := columnMetaCache this2\<rparr>"
        by (subst frame) simp
      ultimately show ?thesis by simp
    qed
  qed
qed

lemma getFirstCellSettingsEach_frame:
  "getFirstCellSettingsEach h this cols = (this', r) \<Longrightarrow>
     this' = this\<lparr>blockPluginTranslation := (if cols = [] then blockPluginTranslation this else isl r),
                  columnMetaCache := columnMetaCache this'\<rparr>"
proof (induction cols arbitrary: this this' r)
  case Nil
  then show ?case by simp
next
  case (Cons c cols)
  obtain this1 r1 where first: "getFirstCellSettings h this (toVisualColumn h c) = (this1, r1)"
    by (metis prod.collapse)
  have f1: "this1 = this\<lparr>blockPluginTranslation := isl r1, columnMetaCache := columnMetaCache this1\<rparr>"
    using getFirstCellSettings_frame [OF first] .
  show ?case
  proof (cases r1)
    case (Inl e)
    with Cons.prems first have "this' = this1" "r = Inl e"
      by simp_all
    then show ?thesis using f1 Inl by simp
  next
    case (Inr m)
    obtain this2 r2 where others: "getFirstCellSettingsEach h this1 cols = (this2, r2)"
      by (metis prod.collapse)
    have f2: "this2 = this1\<lparr>blockPluginTranslation :=
          (if cols = [] then blockPluginTranslation this1 else isl r2),
        columnMetaCache := columnMetaCache this2\<rparr>"
      using Cons.IH [OF others] .
    from Cons.prems first Inr others have res: "this' = this2" "isl r = isl r2"
      by (auto split: sum.splits)
    have b1: "blockPluginTranslation this1 = False"
      by (subst f1) (simp add: Inr)
    have nil: "cols = [] \<Longrightarrow> isl r2 = False"
      using others by auto
    have "this2 = this\<lparr>blockPluginTranslation := isl r2, columnMetaCache := columnMetaCache this2\<rparr>"
      by (subst f2, subst f1) (use b1 nil in auto)
    then show ?thesis using res by simp
  qed
qed

text \<open>
  C9, as amended. A sort pass with a non-empty sort queue that returns normally leaves the
  flag cleared, and so does \<open>getFirstCellSettings\<close> when it returns normally. Nothing
  clears the flag on an exception: \<open>getFirstCellSettings\<close> leaves it set whenever it
  throws, and the sort pass leaves it set when reading the rows to sort throws.
\<close>

theorem suppression_flag_released_on_return:
  "(\<not> isListOfSortedColumnsEmpty this \<and> snd (sortByPresetSortState h this) = None
      \<longrightarrow> blockPluginTranslation (fst (sortByPresetSortState h this)) = False)
   \<and> blockPluginTranslation (fst (getFirstCellSettings h this col))
       = isl (snd (getFirstCellSettings h this col))
   \<and> (\<not> isListOfSortedColumnsEmpty this
       \<and> pushIndexesWithData h (this\<lparr>blockPluginTranslation := True\<rparr>) (getSortedColumns this)
            [0..<nat (getNumberOfRowsToSort h (countRows h))] = Inl e
      \<longrightarrow> sortByPresetSortState h this = (this\<lparr>blockPluginTranslation := True\<rparr>, Some e))"
proof (intro conjI impI)
  assume a: "\<not> isListOfSortedColumnsEmpty this \<and> snd (sortByPresetSortState h this) = None"
  then show "blockPluginTranslation (fst (sortByPresetSortState h this)) = False"
    by (auto simp: sortByPresetSortState_def Let_def split: sum.splits prod.splits)
next
  obtain this' r where g: "getFirstCellSettings h this col = (this', r)"
    by (metis prod.collapse)
  have "blockPluginTranslation this' = isl r"
    by (subst getFirstCellSettings_frame [OF g]) simp
  then show "blockPluginTranslation (fst (getFirstCellSettings h this col))
       = isl (snd (getFirstCellSettings h this col))"
    using g by simp
next
  assume "\<not> isListOfSortedColumnsEmpty this
       \<and> pushIndexesWithData h (this\<lparr>blockPluginTranslation := True\<rparr>) (getSortedColumns this)
            [0..<nat (getNumberOfRowsToSort h (countRows h))] = Inl e"
  then show "sortByPresetSortState h this = (this\<lparr>blockPluginTranslation := True\<rparr>, Some e)"
    by (simp add: sortByPresetSortState_def Let_def)
qed

theorem suppression_flag_released_on_return_witness:
  "blockPluginTranslation (fst (sortByPresetSortState (exampleHot [Num 5, Null, Num 3] False)
       (examplePlugin\<lparr>sortedColumnsStates := [ascending 0]\<rparr>))) = False
   \<and> blockPluginTranslation (fst (getFirstCellSettings (exampleHot [Num 5, Null, Num 3] False)
       examplePlugin 0)) = False
   \<and> sortByPresetSortState
        ((exampleHot [Num 5, Null, Num 3] False)\<lparr>dataAtPhysicalRow := (\<lambda>r c. Inl HostError)\<rparr>)
        (examplePlugin\<lparr>sortedColumnsStates := [ascending 0], blockPluginTranslation := False\<rparr>)
      = (examplePlugin\<lparr>sortedColumnsStates := [ascending 0], blockPluginTranslation := True\<rparr>,
         Some HostError)"
proof -
  let ?h = "exampleHot [Num 5, Null, Num 3] False"
  let ?p = "examplePlugin\<lparr>sortedColumnsStates := [ascending 0]\<rparr>"
  let ?ht = "?h\<lparr>dataAtPhysicalRow := (\<lambda>r c. Inl HostError)\<rparr>"
  let ?pt = "examplePlugin\<lparr>sortedColumnsStates := [ascending 0], blockPluginTranslation := False\<rparr>"
  have ne: "\<not> isListOfSortedColumnsEmpty ?p" "\<not> isListOfSortedColumnsEmpty ?pt"
    by (simp_all add: isListOfSortedColumnsEmpty_def)
  have ok: "snd (sortByPresetSortState ?h ?p) = None"
    by code_simp
  have ret: "isl (snd (getFirstCellSettings ?h examplePlugin 0)) = False"
    by code_simp
  have thrown: "pushIndexesWithData ?ht (?pt\<lparr>blockPluginTranslation := True\<rparr>) (getSortedColumns ?pt)
            [0..<nat (getNumberOfRowsToSort ?ht (countRows ?ht))] = Inl HostError"
    by code_simp
  show ?thesis
    using suppression_flag_released_on_return [of ?p ?h 0 HostError]
      suppression_flag_released_on_return [of examplePlugin ?h 0 HostError]
      suppression_flag_released_on_return [of ?pt ?ht 0 HostError]
      ne ok ret thrown
    by simp
qed

text \<open>
  With a data source that throws, the sort pass ends with the flag set although it was
  clear before; with a cell meta source that throws, so does \<open>getFirstCellSettings\<close>.
\<close>

theorem suppression_flag_left_set_counterexample:
  "blockPluginTranslation (examplePlugin\<lparr>sortedColumnsStates := [ascending 0],
        blockPluginTranslation := False\<rparr>) = False
   \<and> snd (sortByPresetSortState
        ((exampleHot [Num 5, Null, Num 3] False)\<lparr>dataAtPhysicalRow := (\<lambda>r c. Inl HostError)\<rparr>)
        (examplePlugin\<lparr>sortedColumnsStates := [ascending 0], blockPluginTranslation := False\<rparr>))
      = Some HostError
   \<and> blockPluginTranslation (fst (sortByPresetSortState
        ((exampleHot [Num 5, Null, Num 3] False)\<lparr>dataAtPhysicalRow := (\<lambda>r c. Inl HostError)\<rparr>)
        (examplePlugin\<lparr>sortedColumnsStates := [ascending 0], blockPluginTranslation := False\<rparr>)))
      = True
   \<and> isl (snd (getFirstCellSettings
        ((exampleHot [Num 5, Null, Num 3] False)\<lparr>cellMetaAtPhysicalRow := (\<lambda>r c. Inl HostError)\<rparr>)
        (examplePlugin\<lparr>blockPluginTranslation := False\<rparr>) 0))
      = True
   \<and> blockPluginTranslation (fst (getFirstCellSettings
        ((exampleHot [Num 5, Null, Num 3] False)\<lparr>cellMetaAtPhysicalRow := (\<lambda>r c. Inl HostError)\<rparr>)
        (examplePlugin\<lparr>blockPluginTranslation := False\<rparr>) 0))
      = True"
  by code_simp

section \<open>Sorting twice\<close>

lemma getDataAtCell_blocked:
  "blockPluginTranslation this \<Longrightarrow> getDataAtCell h this row col = dataAtPhysicalRow h row col"
  by (simp add: getDataAtCell_def onModifyRow_def)

lemma getCellMeta_blocked:
  "blockPluginTranslation this \<Longrightarrow> getCellMeta h this row col = cellMetaAtPhysicalRow h row col"
  by (simp add: getCellMeta_def onModifyRow_def)

lemma pushIndexesWithData_blocked:
  assumes "blockPluginTranslation this" and "blockPluginTranslation this'"
  shows "pushIndexesWithData h this cols vs = pushIndexesWithData h this' cols vs"
proof -
  have same: "getDataForSortedColumns h this cols v = getDataForSortedColumns h this' cols v" for v
    using assms by (simp add: getDataForSortedColumns_def getDataAtCell_blocked)
  show ?thesis
    by (induction vs) (simp_all add: same cong: sum.case_cong)
qed

lemma setMergedPluginSettingsEach_filled:
  "setMergedPluginSettingsEach h this cols = (this', None) \<Longrightarrow>
     cols \<noteq> [] \<or> columnMetaCache this \<noteq> [] \<Longrightarrow> columnMetaCache this' \<noteq> []"
proof (induction cols arbitrary: this)
  case Nil
  then show ?case by simp
next
  case (Cons c cols)
  from Cons.prems(1) obtain this1 where
    one: "setMergedPluginSettings h this c = Inr this1" and
    others: "setMergedPluginSettingsEach h this1 cols = (this', None)"
    by (auto split: sum.splits)
  have "columnMetaCache this1 \<noteq> []"
    using one by (auto simp: setMergedPluginSettings_def Let_def split: sum.splits)
  then show ?case
    using Cons.IH [OF others] by simp
qed

lemma fillColumnMetaCache_filled:
  "fillColumnMetaCache h this = (this', None) \<Longrightarrow> columnMetaCache this' \<noteq> []"
  using setMergedPluginSettingsEach_filled [of h this "map int [0..<Suc (countCols h)]" this']
  by (auto simp: fillColumnMetaCache_def split: if_splits)

lemma getFirstCellSettings_with_cache:
  assumes "columnMetaCache this \<noteq> []"
  shows "getFirstCellSettings h this col =
    (case cellMetaAtPhysicalRow h 0 col of
       Inl e \<Rightarrow> (this\<lparr>blockPluginTranslation := True\<rparr>, Inl e)
     | Inr cellMeta \<Rightarrow>
        (this\<lparr>blockPluginTranslation := False\<rparr>,
         Inr (cellMeta\<lparr>multiColumnSorting := map_of (columnMetaCache this) (toPhysicalColumn h col)\<rparr>)))"
  using assms
  by (simp add: getFirstCellSettings_def fillColumnMetaCache_def getCellMeta_blocked
      split: sum.splits)

lemma getFirstCellSettings_returned:
  assumes "getFirstCellSettings h this col = (this', Inr cellMeta)"
  shows "columnMetaCache this' \<noteq> []"
    and "columnMetaCache other = columnMetaCache this' \<Longrightarrow>
         getFirstCellSettings h other col = (other\<lparr>blockPluginTranslation := False\<rparr>, Inr cellMeta)"
proof -
  obtain this2 thrown where
    fill: "fillColumnMetaCache h (this\<lparr>blockPluginTranslation := True\<rparr>) = (this2, thrown)"
    by (metis prod.collapse)
  from assms fill have none: "thrown = None"
    by (auto simp: getFirstCellSettings_def split: option.splits)
  have blocked: "blockPluginTranslation this2"
    by (subst fillColumnMetaCache_frame [OF fill]) simp
  from assms fill none obtain cm where
    meta: "getCellMeta h this2 0 col = Inr cm" and
    state: "this' = this2\<lparr>blockPluginTranslation := False\<rparr>" and
    result: "cellMeta = cm\<lparr>multiColumnSorting := map_of (columnMetaCache this2) (toPhysicalColumn h col)\<rparr>"
    by (auto simp: getFirstCellSettings_def split: sum.splits)
  have cache: "columnMetaCache this' = columnMetaCache this2"
    using state by simp
  show "columnMetaCache this' \<noteq> []"
    using fillColumnMetaCache_filled fill none cache by metis
  then show "getFirstCellSettings h other col = (other\<lparr>blockPluginTranslation := False\<rparr>, Inr cellMeta)"
    if "columnMetaCache other = columnMetaCache this'"
    using that meta blocked result cache
    by (simp add: getFirstCellSettings_with_cache getCellMeta_blocked)
qed

lemma getFirstCellSettingsEach_with_cache:
  assumes "columnMetaCache this \<noteq> []" and "columnMetaCache other = columnMetaCache this"
  shows "snd (getFirstCellSettingsEach h other cols) = snd (getFirstCellSettingsEach h this cols)
    \<and> columnMetaCache (fst (getFirstCellSettingsEach h this cols)) = columnMetaCache this"
  using assms
proof (induction cols arbitrary: this other)
  case Nil
  then show ?case by simp
next
  case (Cons c cols)
  show ?case
  proof (cases "cellMetaAtPhysicalRow h 0 (toVisualColumn h c)")
    case (Inl e)
    then show ?thesis
      using Cons.prems by (simp add: getFirstCellSettings_with_cache)
  next
    case (Inr cm)
    let ?this1 = "this\<lparr>blockPluginTranslation := False\<rparr>"
    let ?other1 = "other\<lparr>blockPluginTranslation := False\<rparr>"
    have ih: "snd (getFirstCellSettingsEach h ?other1 cols) = snd (getFirstCellSettingsEach h ?this1 cols)
      \<and> columnMetaCache (fst (getFirstCellSettingsEach h ?this1 cols)) = columnMetaCache ?this1"
      using Cons.prems by (intro Cons.IH) simp_all
    obtain o2 ro where o: "getFirstCellSettingsEach h ?other1 cols = (o2, ro)"
      by (metis prod.collapse)
    obtain t2 rt where t: "getFirstCellSettingsEach h ?this1 cols = (t2, rt)"
      by (metis prod.collapse)
    have "ro = rt" "columnMetaCache t2 = columnMetaCache this"
      using ih o t by simp_all
    then show ?thesis
      using Cons.prems Inr o t
      by (cases rt) (simp_all add: getFirstCellSettings_with_cache)
  qed
qed

lemma getFirstCellSettingsEach_returned:
  assumes "getFirstCellSettingsEach h this cols = (this', Inr cellMetas)"
    and "cols \<noteq> []"
    and "columnMetaCache other = columnMetaCache this'"
  shows "snd (getFirstCellSettingsEach h other cols) = Inr cellMetas"
proof -
  from assms(2) obtain c rest where cols: "cols = c # rest"
    by (cases cols) auto
  from assms(1) cols obtain this1 m ms where
    first: "getFirstCellSettings h this (toVisualColumn h c) = (this1, Inr m)" and
    others: "getFirstCellSettingsEach h this1 rest = (this', Inr ms)" and
    metas: "cellMetas = m # ms"
    by (auto split: prod.splits sum.splits)
  have filled: "columnMetaCache this1 \<noteq> []"
    using getFirstCellSettings_returned(1) [OF first] .
  have same: "columnMetaCache this' = columnMetaCache this1"
    using getFirstCellSettingsEach_with_cache [OF filled refl, of h rest] others by simp
  let ?other1 = "other\<lparr>blockPluginTranslation := False\<rparr>"
  have again: "getFirstCellSettings h other (toVisualColumn h c) = (?other1, Inr m)"
    using getFirstCellSettings_returned(2) [OF first] assms(3) same by simp
  have "snd (getFirstCellSettingsEach h ?other1 rest) = snd (getFirstCellSettingsEach h this1 rest)"
    using getFirstCellSettingsEach_with_cache [OF filled, of ?other1 h rest] assms(3) same by simp
  then have "snd (getFirstCellSettingsEach h ?other1 rest) = Inr ms"
    using others by simp
  then show ?thesis
    using cols again metas by (auto split: prod.splits sum.splits)
qed

lemma getSortOrderOfColumn_cong:
  "sortedColumnsStates this = sortedColumnsStates other \<Longrightarrow>
     getSortOrderOfColumn this = getSortOrderOfColumn other"
  by (rule ext) (simp add: getSortOrderOfColumn_def)

lemma getFirstCellSettingsEach_rowsMapper:
  "rowsMapper (fst (getFirstCellSettingsEach h this cols)) = rowsMapper this"
proof -
  obtain this' r where e: "getFirstCellSettingsEach h this cols = (this', r)"
    by (metis prod.collapse)
  have "rowsMapper this' = rowsMapper this"
    by (subst getFirstCellSettingsEach_frame [OF e]) simp
  then show ?thesis using e by simp
qed

lemma sortByPresetSortState_again:
  assumes nonempty: "\<not> isListOfSortedColumnsEmpty this"
    and first: "sortByPresetSortState h this = (this1, None)"
    and queue: "sortedColumnsStates other = sortedColumnsStates this"
    and cache: "columnMetaCache other = columnMetaCache this1"
    and mapper: "rowsMapper other = rowsMapper this1"
  shows "rowsMapper (fst (sortByPresetSortState h other)) = rowsMapper this1"
proof -
  let ?cols = "getSortedColumns this"
  let ?n = "countRows h"
  let ?range = "[0..<nat (getNumberOfRowsToSort h ?n)]"
  let ?thisB = "this\<lparr>blockPluginTranslation := True\<rparr>"
  let ?otherB = "other\<lparr>blockPluginTranslation := True\<rparr>"
  let ?cmp = "rowComparator h (map (getSortOrderOfColumn this) ?cols)"
  from nonempty first obtain indexesWithData this2 columnMetas sortedRows spareRows where
    rows: "pushIndexesWithData h ?thisB ?cols ?range = Inr indexesWithData" and
    metas: "getFirstCellSettingsEach h ?thisB ?cols = (this2, Inr columnMetas)" and
    sorted: "mergeSort (?cmp columnMetas) indexesWithData = Inr sortedRows" and
    spare: "pushIndexesWithData h this2 ?cols [length sortedRows..<?n] = Inr spareRows" and
    final: "this1 = this2\<lparr>blockPluginTranslation := False,
      rowsMapper := map fst (sortedRows @ spareRows)\<rparr>"
    by (rule sortByPresetSortState_success)
  have m1: "rowsMapper this1 = map fst sortedRows @ [length sortedRows..<?n]"
    using final pushIndexesWithData_fst [OF spare] by simp
  have cols: "getSortedColumns other = ?cols" "\<not> isListOfSortedColumnsEmpty other"
    using queue nonempty by (simp_all add: getSortedColumns_def isListOfSortedColumnsEmpty_def)
  have colsne: "?cols \<noteq> []"
    using nonempty by (simp add: getSortedColumns_def isListOfSortedColumnsEmpty_def)
  have orders: "getSortOrderOfColumn other = getSortOrderOfColumn this"
    using queue by (intro getSortOrderOfColumn_cong) simp
  have rows': "pushIndexesWithData h ?otherB ?cols ?range = Inr indexesWithData"
    using rows pushIndexesWithData_blocked [of ?otherB ?thisB h ?cols ?range] by simp
  obtain other2 r2 where metas2: "getFirstCellSettingsEach h ?otherB ?cols = (other2, r2)"
    by (metis prod.collapse)
  have "columnMetaCache ?otherB = columnMetaCache this2"
    using cache final by simp
  then have "snd (getFirstCellSettingsEach h ?otherB ?cols) = Inr columnMetas"
    using getFirstCellSettingsEach_returned [OF metas colsne] by simp
  then have r2: "r2 = Inr columnMetas"
    using metas2 by simp
  have keep: "rowsMapper other2 = rowsMapper this1"
    using getFirstCellSettingsEach_rowsMapper [of h ?otherB ?cols] metas2 mapper by simp
  show ?thesis
  proof (cases "pushIndexesWithData h other2 ?cols [length sortedRows..<?n]")
    case (Inl e)
    then show ?thesis
      using cols rows' metas2 r2 sorted orders keep
      by (simp add: sortByPresetSortState_def Let_def)
  next
    case (Inr spareRows2)
    have "map fst spareRows2 = [length sortedRows..<?n]"
      using pushIndexesWithData_fst [OF Inr] .
    then show ?thesis
      using cols rows' metas2 r2 sorted orders Inr m1
      by (simp add: sortByPresetSortState_def Let_def)
  qed
qed

lemma saveAllSortSettings_frame:
  "rowsMapper (saveAllSortSettings h this) = rowsMapper this"
  "columnMetaCache (saveAllSortSettings h this) = columnMetaCache this"
  "sortedColumnsStates (saveAllSortSettings h this) = sortedColumnsStates this"
  by (simp_all add: saveAllSortSettings_def)

lemma sortByPresetSortState_empty_queue:
  "isListOfSortedColumnsEmpty this \<Longrightarrow> sortByPresetSortState h this = (this\<lparr>rowsMapper := []\<rparr>, None)"
  by (simp add: sortByPresetSortState_def clearMap_def)

text \<open>
  C8. When \<open>sort\<close> has returned normally, calling it again with the same configuration
  on the same table leaves the array of the rows mapper as the first call left it.
\<close>

theorem sort_twice_same_mapping:
  assumes "sort h this sortConfig = (this1, fired, None)"
  shows "rowsMapper (fst (sort h this1 sortConfig)) = rowsMapper this1"
proof -
  let ?dest = "destinationSortConfigsOf sortConfig"
  let ?possible = "areValidSortConfigs h ?dest"
  let ?states = "map (\<lambda>columnSortConfig.
      columnSortConfig\<lparr>column := toPhysicalColumn h (column columnSortConfig)\<rparr>) ?dest"
  show ?thesis
  proof (cases "beforeColumnSort h (getSortConfig h this) ?dest ?possible \<and> ?possible")
    case False
    then have "this1 = this"
      using assms by (auto simp: sort_def Let_def split: if_splits)
    then show ?thesis
      using assms by simp
  next
    case True
    let ?thisA = "setSortStates ?states this"
    obtain thisB where
      pass: "sortByPresetSortState h ?thisA = (thisB, None)" and
      saved: "this1 = saveAllSortSettings h thisB"
      using True assms by (auto simp: sort_def Let_def split: prod.splits option.splits)
    let ?otherA = "setSortStates ?states this1"
    have queue: "sortedColumnsStates ?otherA = sortedColumnsStates ?thisA"
      by (simp add: setSortStates_def)
    have cache: "columnMetaCache ?otherA = columnMetaCache thisB"
      using saved by (simp add: setSortStates_def saveAllSortSettings_frame)
    have mapper: "rowsMapper ?otherA = rowsMapper thisB"
      using saved by (simp add: setSortStates_def saveAllSortSettings_frame)
    have again: "rowsMapper (fst (sortByPresetSortState h ?otherA)) = rowsMapper thisB"
    proof (cases "isListOfSortedColumnsEmpty ?thisA")
      case True
      then have "isListOfSortedColumnsEmpty ?otherA"
        using queue by (simp add: isListOfSortedColumnsEmpty_def)
      then have "rowsMapper (fst (sortByPresetSortState h ?otherA)) = []"
        by (simp add: sortByPresetSortState_empty_queue)
      moreover have "rowsMapper thisB = []"
        using True pass by (auto simp: sortByPresetSortState_empty_queue)
      ultimately show ?thesis
        by simp
    next
      case False
      then show ?thesis
        using sortByPresetSortState_again [OF False pass queue cache mapper] by simp
    qed
    have m1: "rowsMapper this1 = rowsMapper thisB"
      using saved by (simp add: saveAllSortSettings_frame)
    obtain thisB2 r where pass2: "sortByPresetSortState h ?otherA = (thisB2, r)"
      by (metis prod.collapse)
    have "rowsMapper thisB2 = rowsMapper thisB"
      using again pass2 by simp
    then show ?thesis
      using True pass2 m1
      by (cases r) (auto simp: sort_def Let_def saveAllSortSettings_frame)
  qed
qed

theorem sort_twice_same_mapping_witness:
  "rowsMapper (fst (sort (exampleHot [Num 5, Null, Num 3, Num 5] False) examplePlugin
      (SingleSortConfig (ascending 0)))) = [2, 0, 3, 1]
   \<and> rowsMapper (fst (sort (exampleHot [Num 5, Null, Num 3, Num 5] False)
        (fst (sort (exampleHot [Num 5, Null, Num 3, Num 5] False) examplePlugin
           (SingleSortConfig (ascending 0))))
        (SingleSortConfig (ascending 0)))) = [2, 0, 3, 1]"
proof -
  let ?h = "exampleHot [Num 5, Null, Num 3, Num 5] False"
  let ?c = "SingleSortConfig (ascending 0)"
  have ok: "snd (snd (sort ?h examplePlugin ?c)) = None"
    by code_simp
  have run: "sort ?h examplePlugin ?c
    = (fst (sort ?h examplePlugin ?c), fst (snd (sort ?h examplePlugin ?c)), None)"
    using ok by (metis prod.collapse)
  have m: "rowsMapper (fst (sort ?h examplePlugin ?c)) = [2, 0, 3, 1]"
    by code_simp
  show ?thesis
    using sort_twice_same_mapping [OF run] m by simp
qed

section \<open>Stability of the sort pass\<close>

lemma notAfter_refl:
  "consistentComparator cmp xs \<Longrightarrow> a \<in> set xs \<Longrightarrow> notAfter cmp a a"
  unfolding consistentComparator_def by blast

lemma notAfter_total:
  "consistentComparator cmp xs \<Longrightarrow> a \<in> set xs \<Longrightarrow> b \<in> set xs \<Longrightarrow>
     \<not> notAfter cmp a b \<Longrightarrow> notAfter cmp b a"
  unfolding consistentComparator_def by blast

lemma notAfter_trans:
  "consistentComparator cmp xs \<Longrightarrow> a \<in> set xs \<Longrightarrow> b \<in> set xs \<Longrightarrow> c \<in> set xs \<Longrightarrow>
     notAfter cmp a b \<Longrightarrow> notAfter cmp b c \<Longrightarrow> notAfter cmp a c"
  unfolding consistentComparator_def by blast

lemma merge_set:
  assumes "merge cmp ls rs = Inr zs"
  shows "set zs = set ls \<union> set rs"
proof -
  have "set_mset (mset zs) = set_mset (mset ls + mset rs)"
    using merge_mset [OF assms] by simp
  then show ?thesis
    by simp
qed

lemma merge_sorted:
  assumes "merge cmp ls rs = Inr zs"
    and "consistentComparator cmp xs"
    and "set ls \<subseteq> set xs" and "set rs \<subseteq> set xs"
    and "sorted_wrt (notAfter cmp) ls" and "sorted_wrt (notAfter cmp) rs"
  shows "sorted_wrt (notAfter cmp) zs"
  using assms
proof (induction cmp ls rs arbitrary: zs rule: merge.induct)
  case (1 cmp rs)
  then show ?case by simp
next
  case (2 cmp l ls)
  then show ?case by simp
next
  case (3 cmp l ls r rs)
  from "3.prems"(1) obtain c where c: "cmp l r = Inr c"
    by (auto split: sum.splits)
  have inl: "l \<in> set xs" and inr: "r \<in> set xs"
    using "3.prems"(3,4) by auto
  show ?case
  proof (cases "c > 0")
    case True
    with "3.prems"(1) c obtain zs' where
      rec: "merge cmp (l # ls) rs = Inr zs'" and zs: "zs = r # zs'"
      by (auto split: sum.splits)
    have sorted': "sorted_wrt (notAfter cmp) zs'"
      using "3.IH"(1) [OF c True rec "3.prems"(2)] "3.prems"(3-6) by simp
    have rl: "notAfter cmp r l"
      using notAfter_total [OF "3.prems"(2) inl inr] True c by (simp add: notAfter_def)
    have "notAfter cmp r y" if "y \<in> set zs'" for y
    proof -
      from that merge_set [OF rec] consider "y = l" | "y \<in> set ls" | "y \<in> set rs"
        by auto
      then show ?thesis
      proof cases
        case 1
        then show ?thesis using rl by simp
      next
        case 2
        then have "notAfter cmp l y" "y \<in> set xs"
          using "3.prems"(3,5) by auto
        then show ?thesis
          using notAfter_trans [OF "3.prems"(2) inr inl _ rl] by simp
      next
        case 3
        then show ?thesis using "3.prems"(6) by simp
      qed
    qed
    then show ?thesis
      using zs sorted' by simp
  next
    case False
    with "3.prems"(1) c obtain zs' where
      rec: "merge cmp ls (r # rs) = Inr zs'" and zs: "zs = l # zs'"
      by (auto split: sum.splits)
    have sorted': "sorted_wrt (notAfter cmp) zs'"
      using "3.IH"(2) [OF c False rec "3.prems"(2)] "3.prems"(3-6) by simp
    have lr: "notAfter cmp l r"
      using False c by (simp add: notAfter_def)
    have "notAfter cmp l y" if "y \<in> set zs'" for y
    proof -
      from that merge_set [OF rec] consider "y \<in> set ls" | "y = r" | "y \<in> set rs"
        by auto
      then show ?thesis
      proof cases
        case 1
        then show ?thesis using "3.prems"(5) by simp
      next
        case 2
        then show ?thesis using lr by simp
      next
        case 3
        then have "notAfter cmp r y" "y \<in> set xs"
          using "3.prems"(4,6) by auto
        then show ?thesis
          using notAfter_trans [OF "3.prems"(2) inl inr _ lr] by simp
      qed
    qed
    then show ?thesis
      using zs sorted' by simp
  qed
qed

lemma merge_filter:
  assumes "merge cmp ls rs = Inr zs"
    and "consistentComparator cmp xs"
    and "set ls \<subseteq> set xs" and "set rs \<subseteq> set xs"
    and "sorted_wrt (notAfter cmp) ls"
    and "sorted_wrt (notAfter cmp) (filter P ls @ filter P rs)"
  shows "filter P zs = filter P ls @ filter P rs"
  using assms
proof (induction cmp ls rs arbitrary: zs rule: merge.induct)
  case (1 cmp rs)
  then show ?case by simp
next
  case (2 cmp l ls)
  then show ?case by simp
next
  case (3 cmp l ls r rs)
  from "3.prems"(1) obtain c where c: "cmp l r = Inr c"
    by (auto split: sum.splits)
  have inl: "l \<in> set xs" and inr: "r \<in> set xs"
    using "3.prems"(3,4) by auto
  show ?case
  proof (cases "c > 0")
    case True
    with "3.prems"(1) c obtain zs' where
      rec: "merge cmp (l # ls) rs = Inr zs'" and zs: "zs = r # zs'"
      by (auto split: sum.splits)
    have sub: "sorted_wrt (notAfter cmp) (filter P (l # ls) @ filter P rs)"
      using "3.prems"(6) by (auto simp: sorted_wrt_append split: if_splits)
    have ih: "filter P zs' = filter P (l # ls) @ filter P rs"
      using "3.IH"(1) [OF c True rec "3.prems"(2) _ _ "3.prems"(5) sub] "3.prems"(3,4) by simp
    show ?thesis
    proof (cases "P r")
      case False
      then show ?thesis using zs ih by simp
    next
      case Pr: True
      have "\<not> P y" if y: "y \<in> set (l # ls)" for y
      proof
        assume "P y"
        then have yr: "notAfter cmp y r"
          using "3.prems"(6) y Pr by (auto simp: sorted_wrt_append)
        have yin: "y \<in> set xs"
          using y "3.prems"(3) by auto
        have "notAfter cmp l y"
          using y "3.prems"(5) notAfter_refl [OF "3.prems"(2) inl] by auto
        then have "notAfter cmp l r"
          using notAfter_trans [OF "3.prems"(2) inl yin inr _ yr] by simp
        then show False
          using True c by (simp add: notAfter_def)
      qed
      then have "filter P (l # ls) = []"
        by (simp add: filter_empty_conv)
      then show ?thesis
        using zs ih Pr by simp
    qed
  next
    case False
    with "3.prems"(1) c obtain zs' where
      rec: "merge cmp ls (r # rs) = Inr zs'" and zs: "zs = l # zs'"
      by (auto split: sum.splits)
    have sub: "sorted_wrt (notAfter cmp) (filter P ls @ filter P (r # rs))"
      using "3.prems"(6) by (auto simp: sorted_wrt_append split: if_splits)
    have ih: "filter P zs' = filter P ls @ filter P (r # rs)"
      using "3.IH"(2) [OF c False rec "3.prems"(2) _ _ _ sub] "3.prems"(3,4,5) by simp
    show ?thesis
      using zs ih by simp
  qed
qed

lemma mergeSort_stable:
  assumes "mergeSort cmp xs = Inr ys"
    and "consistentComparator cmp all"
    and "set xs \<subseteq> set all"
    and "sorted_wrt (notAfter cmp) (filter P xs)"
  shows "sorted_wrt (notAfter cmp) ys \<and> filter P ys = filter P xs"
  using assms
proof (induction cmp xs arbitrary: ys rule: mergeSort.induct)
  case (1 cmp xs)
  show ?case
  proof (cases "length xs \<le> 1")
    case True
    then have "ys = xs"
      using "1.prems"(1) by (simp add: mergeSort.simps [of cmp xs])
    moreover have "sorted_wrt (notAfter cmp) xs"
      using True by (cases xs) (auto simp: le_Suc_eq)
    ultimately show ?thesis by simp
  next
    case False
    let ?m = "(length xs + 1) div 2"
    from False "1.prems"(1) obtain ls rs where
      ls: "mergeSort cmp (take ?m xs) = Inr ls" and
      rs: "mergeSort cmp (drop ?m xs) = Inr rs" and
      zs: "merge cmp ls rs = Inr ys"
      by (auto simp: mergeSort.simps [of cmp xs] split: sum.splits)
    have split: "filter P xs = filter P (take ?m xs) @ filter P (drop ?m xs)"
      by (metis append_take_drop_id filter_append)
    have subl: "set (take ?m xs) \<subseteq> set all"
      using "1.prems"(3) set_take_subset [of ?m xs] by blast
    have subr: "set (drop ?m xs) \<subseteq> set all"
      using "1.prems"(3) set_drop_subset [of ?m xs] by blast
    have pl: "sorted_wrt (notAfter cmp) (filter P (take ?m xs))"
      and pr: "sorted_wrt (notAfter cmp) (filter P (drop ?m xs))"
      using "1.prems"(4) split by (simp_all add: sorted_wrt_append)
    have l: "sorted_wrt (notAfter cmp) ls \<and> filter P ls = filter P (take ?m xs)"
      using "1.IH"(1) [OF False ls "1.prems"(2) subl pl] .
    have r: "sorted_wrt (notAfter cmp) rs \<and> filter P rs = filter P (drop ?m xs)"
      using "1.IH"(2) [OF False ls rs "1.prems"(2) subr pr] .
    have setl: "set ls \<subseteq> set all"
      using mset_eq_setD [OF mergeSort_mset [OF ls]] subl by simp
    have setr: "set rs \<subseteq> set all"
      using mset_eq_setD [OF mergeSort_mset [OF rs]] subr by simp
    have cross: "sorted_wrt (notAfter cmp) (filter P ls @ filter P rs)"
      using l r split "1.prems"(4) by simp
    have "sorted_wrt (notAfter cmp) ys"
      using merge_sorted [OF zs "1.prems"(2) setl setr] l r by simp
    moreover have "filter P ys = filter P ls @ filter P rs"
      using merge_filter [OF zs "1.prems"(2) setl setr _ cross] l by simp
    ultimately show ?thesis
      using l r split by simp
  qed
qed

lemma filter_one_upt:
  "i < k \<Longrightarrow> filter (\<lambda>v. v = i) [0..<k] = [i]"
  by (induction k) (auto simp: less_Suc_eq)

lemma filter_two_upt:
  "i < j \<Longrightarrow> j < k \<Longrightarrow> filter (\<lambda>v. v = i \<or> v = j) [0..<k] = [i, j]"
proof (induction k)
  case 0
  then show ?case by simp
next
  case (Suc k)
  show ?case
  proof (cases "j = k")
    case True
    have "filter (\<lambda>v. v = i \<or> v = j) [0..<k] = filter (\<lambda>v. v = i) [0..<k]"
      using True by (intro filter_cong) auto
    then show ?thesis
      using True Suc.prems filter_one_upt [of i k] by simp
  next
    case False
    then show ?thesis
      using Suc by simp
  qed
qed

lemma length_indexed:
  assumes "map fst rows = [0..<k]"
  shows "length rows = k"
proof -
  have "length (map fst rows) = length [0..<k]"
    using assms by simp
  then show ?thesis by simp
qed

lemma fst_nth_indexed:
  assumes "map fst rows = [0..<k]" and "n < k"
  shows "fst (rows ! n) = n"
proof -
  have "n < length rows"
    using length_indexed [OF assms(1)] assms(2) by simp
  then have "fst (rows ! n) = map fst rows ! n"
    by simp
  also have "\<dots> = [0..<k] ! n"
    using assms(1) by simp
  also have "\<dots> = n"
    using assms(2) by simp
  finally show ?thesis .
qed

lemma filter_two_rows:
  assumes "map fst rows = [0..<k]" and "i < j" and "j < k"
  shows "filter (\<lambda>r. fst r = i \<or> fst r = j) rows = [rows ! i, rows ! j]"
proof -
  let ?P = "\<lambda>r. fst r = i \<or> fst r = j"
  have len: "length rows = k"
    using length_indexed [OF assms(1)] .
  have "map fst (filter ?P rows) = filter (\<lambda>v. v = i \<or> v = j) (map fst rows)"
    by (simp add: filter_map comp_def)
  then have firsts: "map fst (filter ?P rows) = [i, j]"
    using assms filter_two_upt by simp
  then obtain a b where ab: "filter ?P rows = [a, b]" "fst a = i" "fst b = j"
    by (cases "filter ?P rows") auto
  have "a \<in> set (filter ?P rows)" "b \<in> set (filter ?P rows)"
    using ab(1) by simp_all
  then have "a \<in> set rows" "b \<in> set rows"
    by simp_all
  then obtain n m where nm: "n < k" "a = rows ! n" "m < k" "b = rows ! m"
    using len unfolding in_set_conv_nth by blast
  have "n = i"
    using fst_nth_indexed [OF assms(1) nm(1)] nm(2) ab(2) by simp
  moreover have "m = j"
    using fst_nth_indexed [OF assms(1) nm(3)] nm(4) ab(3) by simp
  ultimately show ?thesis
    using ab(1) nm by simp
qed

text \<open>
  C2, as amended. A sort pass reads its rows with the translation suppressed and numbers
  them by the index it reads them at. When the composite comparator satisfies the
  three-way contract on the row snapshots (of any two rows one is not after the other, and
  "not after" is transitive), two rows \<open>i < j\<close> that compare equal stand in the new rows
  mapper in the order of these indexes, \<open>i\<close> before \<open>j\<close>, whatever the rows mapper held
  before the pass. So they keep the order they were displayed in when the rows mapper
  before the pass had \<open>i\<close> before \<open>j\<close>.
\<close>

theorem sortByPresetSortState_stable:
  assumes "\<not> isListOfSortedColumnsEmpty this"
    and "sortByPresetSortState h this = (this', None)"
    and "pushIndexesWithData h (this\<lparr>blockPluginTranslation := True\<rparr>) (getSortedColumns this)
           [0..<nat (getNumberOfRowsToSort h (countRows h))] = Inr indexesWithData"
    and "getFirstCellSettingsEach h (this\<lparr>blockPluginTranslation := True\<rparr>)
           (getSortedColumns this) = (this2, Inr columnMetas)"
    and "compareFunction =
           rowComparator h (map (getSortOrderOfColumn this) (getSortedColumns this)) columnMetas"
    and "consistentComparator compareFunction indexesWithData"
    and "i < j" and "j < length indexesWithData"
    and "compareFunction (indexesWithData ! i) (indexesWithData ! j) = Inr DO_NOT_SWAP"
  shows "filter (\<lambda>v. v = i \<or> v = j) (rowsMapper this') = [i, j]
    \<and> (filter (\<lambda>v. v = i \<or> v = j) (rowsMapper this) = [i, j] \<longrightarrow>
         filter (\<lambda>v. v = i \<or> v = j) (rowsMapper this')
           = filter (\<lambda>v. v = i \<or> v = j) (rowsMapper this))"
proof -
  let ?k = "nat (getNumberOfRowsToSort h (countRows h))"
  let ?P = "\<lambda>r::rowSnapshot. fst r = i \<or> fst r = j"
  from assms(1,2) obtain rows' this2' metas' sortedRows spareRows where
    rows': "pushIndexesWithData h (this\<lparr>blockPluginTranslation := True\<rparr>) (getSortedColumns this)
       [0..<?k] = Inr rows'" and
    metas': "getFirstCellSettingsEach h (this\<lparr>blockPluginTranslation := True\<rparr>)
       (getSortedColumns this) = (this2', Inr metas')" and
    sorted': "mergeSort (rowComparator h (map (getSortOrderOfColumn this) (getSortedColumns this))
        metas') rows' = Inr sortedRows" and
    spare: "pushIndexesWithData h this2' (getSortedColumns this) [length sortedRows..<countRows h]
       = Inr spareRows" and
    final: "this' = this2'\<lparr>blockPluginTranslation := False,
       rowsMapper := map fst (sortedRows @ spareRows)\<rparr>"
    by (rule sortByPresetSortState_success)
  have sorted: "mergeSort compareFunction indexesWithData = Inr sortedRows"
    using rows' metas' sorted' assms(3,4,5) by simp
  have idx: "map fst indexesWithData = [0..<?k]"
    using pushIndexesWithData_fst [OF assms(3)] .
  have k: "j < ?k"
    using length_indexed [OF idx] assms(8) by simp
  have two: "filter ?P indexesWithData = [indexesWithData ! i, indexesWithData ! j]"
    using filter_two_rows [OF idx assms(7) k] .
  have "notAfter compareFunction (indexesWithData ! i) (indexesWithData ! j)"
    using assms(9) by (simp add: notAfter_def DO_NOT_SWAP_def)
  then have ordered: "sorted_wrt (notAfter compareFunction) (filter ?P indexesWithData)"
    using two by simp
  have "filter ?P sortedRows = filter ?P indexesWithData"
    using mergeSort_stable [OF sorted assms(6) subset_refl ordered] by simp
  then have "map fst (filter ?P sortedRows) = [i, j]"
    using two fst_nth_indexed [OF idx k] fst_nth_indexed [OF idx less_trans [OF assms(7) k]]
    by simp
  then have first: "filter (\<lambda>v. v = i \<or> v = j) (map fst sortedRows) = [i, j]"
    by (simp add: filter_map comp_def)
  have "length sortedRows = length indexesWithData"
    using mset_eq_length [OF mergeSort_mset [OF sorted]] .
  then have "length sortedRows = ?k"
    using length_indexed [OF idx] by simp
  then have "map fst spareRows = [?k..<countRows h]"
    using pushIndexesWithData_fst [OF spare] by simp
  then have rest: "filter (\<lambda>v. v = i \<or> v = j) (map fst spareRows) = []"
    using assms(7) k by (auto simp: filter_empty_conv)
  have "filter (\<lambda>v. v = i \<or> v = j) (rowsMapper this') = [i, j]"
    using final first rest by simp
  then show ?thesis
    by simp
qed

text \<open>
  The table \<open>[5, null, 3, 5]\<close>, its rows mapper \<open>[2, 0, 3, 1]\<close> from an earlier ascending
  sort: the rows 0 and 3 compare equal, were displayed in this order, and stay so. The
  table of the columns \<open>[1, 2]\<close> and \<open>[7, 7]\<close>, its rows mapper \<open>[1, 0]\<close> from a descending
  sort by the first column: sorted by the second column, the rows 0 and 1 compare equal and
  stand in the order 0, 1.
\<close>

theorem sortByPresetSortState_stable_witness:
  "filter (\<lambda>v. v = 0 \<or> v = 3) [2, 0, 3, 1 :: nat] = [0, 3]
   \<and> filter (\<lambda>v. v = 0 \<or> v = 3)
        (rowsMapper (fst (sortByPresetSortState (exampleHot [Num 5, Null, Num 3, Num 5] False)
          (examplePlugin\<lparr>sortedColumnsStates := [ascending 0], rowsMapper := [2, 0, 3, 1],
             blockPluginTranslation := False\<rparr>)))) = [0, 3]
   \<and> filter (\<lambda>v. v = 0 \<or> v = 1)
        (rowsMapper (fst (sortByPresetSortState
          (exampleColumnsHot [[Num 1, Num 2], [Num 7, Num 7]])
          (examplePlugin\<lparr>sortedColumnsStates := [ascending 1], rowsMapper := [1, 0],
             blockPluginTranslation := False\<rparr>)))) = [0, 1]"
proof -
  let ?h = "exampleHot [Num 5, Null, Num 3, Num 5] False"
  let ?p = "examplePlugin\<lparr>sortedColumnsStates := [ascending 0], rowsMapper := [2, 0, 3, 1],
    blockPluginTranslation := False\<rparr>"
  let ?rows = "[(0, [Num 5]), (1, [Null]), (2, [Num 3]), (3, [Num 5])] :: rowSnapshot list"
  let ?each = "getFirstCellSettingsEach ?h (?p\<lparr>blockPluginTranslation := True\<rparr>)
    (getSortedColumns ?p)"
  let ?cmp = "rowComparator ?h (map (getSortOrderOfColumn ?p) (getSortedColumns ?p))
    (projr (snd ?each))"
  have ne: "\<not> isListOfSortedColumnsEmpty ?p"
    by (simp add: isListOfSortedColumnsEmpty_def)
  have ok: "snd (sortByPresetSortState ?h ?p) = None"
    by code_simp
  have run: "sortByPresetSortState ?h ?p = (fst (sortByPresetSortState ?h ?p), None)"
    using ok by (metis prod.collapse)
  have rows: "pushIndexesWithData ?h (?p\<lparr>blockPluginTranslation := True\<rparr>) (getSortedColumns ?p)
      [0..<nat (getNumberOfRowsToSort ?h (countRows ?h))] = Inr ?rows"
    by code_simp
  have returned: "\<not> isl (snd ?each)"
    by code_simp
  have metas: "?each = (fst ?each, Inr (projr (snd ?each)))"
    using returned by (metis prod.collapse sum.collapse(2))
  have consistent: "consistentComparator ?cmp ?rows"
    by code_simp
  have equal: "?cmp (?rows ! 0) (?rows ! 3) = Inr DO_NOT_SWAP"
    by code_simp
  have before: "filter (\<lambda>v. v = 0 \<or> v = 3) (rowsMapper ?p) = [0, 3]"
    by simp
  have first: "filter (\<lambda>v. v = 0 \<or> v = 3) (rowsMapper (fst (sortByPresetSortState ?h ?p)))
      = [0, 3]"
    using sortByPresetSortState_stable [OF ne run rows metas refl consistent _ _ equal] before
    by simp
  let ?h2 = "exampleColumnsHot [[Num 1, Num 2], [Num 7, Num 7]]"
  let ?p2 = "examplePlugin\<lparr>sortedColumnsStates := [ascending 1], rowsMapper := [1, 0],
    blockPluginTranslation := False\<rparr>"
  let ?rows2 = "[(0, [Num 7]), (1, [Num 7])] :: rowSnapshot list"
  let ?each2 = "getFirstCellSettingsEach ?h2 (?p2\<lparr>blockPluginTranslation := True\<rparr>)
    (getSortedColumns ?p2)"
  let ?cmp2 = "rowComparator ?h2 (map (getSortOrderOfColumn ?p2) (getSortedColumns ?p2))
    (projr (snd ?each2))"
  have ne2: "\<not> isListOfSortedColumnsEmpty ?p2"
    by (simp add: isListOfSortedColumnsEmpty_def)
  have ok2: "snd (sortByPresetSortState ?h2 ?p2) = None"
    by code_simp
  have run2: "sortByPresetSortState ?h2 ?p2 = (fst (sortByPresetSortState ?h2 ?p2), None)"
    using ok2 by (metis prod.collapse)
  have rows2: "pushIndexesWithData ?h2 (?p2\<lparr>blockPluginTranslation := True\<rparr>)
      (getSortedColumns ?p2) [0..<nat (getNumberOfRowsToSort ?h2 (countRows ?h2))] = Inr ?rows2"
    by code_simp
  have returned2: "\<not> isl (snd ?each2)"
    by code_simp
  have metas2: "?each2 = (fst ?each2, Inr (projr (snd ?each2)))"
    using returned2 by (metis prod.collapse sum.collapse(2))
  have consistent2: "consistentComparator ?cmp2 ?rows2"
    by code_simp
  have equal2: "?cmp2 (?rows2 ! 0) (?rows2 ! 1) = Inr DO_NOT_SWAP"
    by code_simp
  have second: "filter (\<lambda>v. v = 0 \<or> v = 1) (rowsMapper (fst (sortByPresetSortState ?h2 ?p2)))
      = [0, 1]"
    using sortByPresetSortState_stable [OF ne2 run2 rows2 metas2 refl consistent2 _ _ equal2]
    by simp
  show ?thesis
    using first second by simp
qed

text \<open>
  The table of the columns \<open>[1, 2]\<close> and \<open>[7, 7]\<close>. A descending sort by the first column
  leaves the rows mapper \<open>[1, 0]\<close> and the flag clear: row 1 is displayed above row 0. The
  two rows compare equal under the second column, in either order, and the comparator
  satisfies the contract on them. The ascending sort by the second column leaves the rows
  mapper \<open>[0, 1]\<close>: row 0 is now displayed above row 1, so the two equal rows have changed
  their displayed order.
\<close>

theorem sortByPresetSortState_stable_counterexample:
  "rowsMapper (fst (sort (exampleColumnsHot [[Num 1, Num 2], [Num 7, Num 7]]) examplePlugin
      (SingleSortConfig (descending 0)))) = [1, 0]
   \<and> blockPluginTranslation (fst (sort (exampleColumnsHot [[Num 1, Num 2], [Num 7, Num 7]])
        examplePlugin (SingleSortConfig (descending 0)))) = False
   \<and> rowComparator (exampleColumnsHot [[Num 1, Num 2], [Num 7, Num 7]]) [Some ''asc'']
        [exampleDateMeta False] (0, [Num 7]) (1, [Num 7]) = Inr DO_NOT_SWAP
   \<and> rowComparator (exampleColumnsHot [[Num 1, Num 2], [Num 7, Num 7]]) [Some ''asc'']
        [exampleDateMeta False] (1, [Num 7]) (0, [Num 7]) = Inr DO_NOT_SWAP
   \<and> consistentComparator
        (rowComparator (exampleColumnsHot [[Num 1, Num 2], [Num 7, Num 7]]) [Some ''asc'']
           [exampleDateMeta False])
        [(0, [Num 7]), (1, [Num 7])]
   \<and> snd (sort (exampleColumnsHot [[Num 1, Num 2], [Num 7, Num 7]])
        (fst (sort (exampleColumnsHot [[Num 1, Num 2], [Num 7, Num 7]]) examplePlugin
           (SingleSortConfig (descending 0))))
        (SingleSortConfig (ascending 1)))
       = ([BeforeColumnSort [descending 0] [ascending 1] True,
           AfterColumnSort [descending 0] [ascending 1] True], None)
   \<and> rowsMapper (fst (sort (exampleColumnsHot [[Num 1, Num 2], [Num 7, Num 7]])
        (fst (sort (exampleColumnsHot [[Num 1, Num 2], [Num 7, Num 7]]) examplePlugin
           (SingleSortConfig (descending 0))))
        (SingleSortConfig (ascending 1)))) = [0, 1]"
  by code_simp

end
